theory Spec2Isabelle
  imports Main "HOL-Library.Sublist"
begin

section \<open>Data model of \<^verbatim>\<open>kindle2readwise/core.py\<close>\<close>

text \<open>
  A \<^verbatim>\<open>KindleClipping\<close> as the core reads it: \<^verbatim>\<open>title\<close> and \<^verbatim>\<open>content\<close> are strings,
  \<^verbatim>\<open>author\<close>, \<^verbatim>\<open>location\<close> and \<^verbatim>\<open>date\<close> may be \<^verbatim>\<open>None\<close>.
\<close>

record clipping =
  title :: string
  author :: "string option"
  content :: string
  location :: "string option"
  date :: "string option"

text \<open>
  Modelled from the spec: \<^verbatim>\<open>ExportStats\<close> (its class is in \<^verbatim>\<open>models.py\<close>, which is not part
  of the sources at hand) is the accumulator of section 3 with the four counters that the
  core reads and writes. A fresh \<^verbatim>\<open>ExportStats()\<close> has counted nothing, so every counter
  starts at 0.
\<close>

record export_stats =
  total_processed :: int
  new_sent :: int
  duplicates_skipped :: int
  failed_to_send :: int

definition ExportStats :: export_stats where
  "ExportStats = \<lparr>total_processed = 0, new_sent = 0, duplicates_skipped = 0, failed_to_send = 0\<rparr>"

text \<open>The dictionary \<^verbatim>\<open>final_stats_dict\<close> handed to \<^verbatim>\<open>complete_export_session\<close>.\<close>

record stats_dict =
  d_total_processed :: int
  d_sent :: int
  d_duplicates :: int
  d_failed :: int

text \<open>
  The dictionary returned by \<^verbatim>\<open>send_highlights\<close>; the core reads it with
  \<^verbatim>\<open>.get("sent", 0)\<close> and \<^verbatim>\<open>.get("failed", 0)\<close>, so either key may be missing.
\<close>

record send_result =
  sent :: "int option"
  failed :: "int option"

definition dict_get :: "int option \<Rightarrow> int \<Rightarrow> int" where
  "dict_get v dflt = (case v of None \<Rightarrow> dflt | Some k \<Rightarrow> k)"

text \<open>Exceptions (all subclasses of \<^verbatim>\<open>Exception\<close>). \<^verbatim>\<open>ProcessingError\<close> carries its cause.\<close>

datatype pyexn =
    ValidationError string
  | ProcessingError string pyexn
  | ParsingError string
  | DeliveryError string
  | StorageError string
  | OtherError string

fun exn_str :: "pyexn \<Rightarrow> string" where
  "exn_str (ValidationError m) = m"
| "exn_str (ProcessingError m c) = m"
| "exn_str (ParsingError m) = m"
| "exn_str (DeliveryError m) = m"
| "exn_str (StorageError m) = m"
| "exn_str (OtherError m) = m"

text \<open>The entry of the pending view built by \<^verbatim>\<open>get_pending_highlights\<close>.\<close>

record pending =
  hid :: int
  h_title :: string
  h_author :: string
  h_highlight :: string
  h_location :: string
  h_date :: string
  original_clipping :: clipping

text \<open>The application object: the fields of \<^verbatim>\<open>Kindle2Readwise\<close> that the methods read.\<close>

record app =
  clippings_file :: string
  dry_run :: bool

subsection \<open>Python helpers\<close>

text \<open>\<^verbatim>\<open>x or d\<close> on an optional string: \<^verbatim>\<open>None\<close> and the empty string are falsy.\<close>

definition py_or :: "string option \<Rightarrow> string \<Rightarrow> string" where
  "py_or x d = (case x of None \<Rightarrow> d | Some s \<Rightarrow> if s = [] then d else s)"

text \<open>\<^verbatim>\<open>xs[:k]\<close>: a negative \<^verbatim>\<open>k\<close> counts from the end.\<close>

definition py_prefix :: "'a list \<Rightarrow> int \<Rightarrow> 'a list" where
  "py_prefix xs k = (if 0 \<le> k then take (nat k) xs else take (length xs - nat (- k)) xs)"

text \<open>The DedupKey of a record, as \<^verbatim>\<open>highlight_exists\<close> is called with it.\<close>

definition dedup_key :: "clipping \<Rightarrow> string \<times> string \<times> string" where
  "dedup_key c = (title c, py_or (author c) [], content c)"

section \<open>Collaborators and the log of calls\<close>

text \<open>
  The parser, the Readwise client, the DAO and the file system are parameters: each
  operation reads and updates a collaborator state \<open>'s\<close> and either returns or raises.
  \<^verbatim>\<open>start_export_session\<close> returns the identifier of the session, an integer.
\<close>

record 's collab =
  file_exists :: "string \<Rightarrow> 's \<Rightarrow> bool"
  validate_token :: "'s \<Rightarrow> (pyexn + bool) \<times> 's"
  parse :: "'s \<Rightarrow> (pyexn + clipping list) \<times> 's"
  highlight_exists :: "string \<Rightarrow> string \<Rightarrow> string \<Rightarrow> 's \<Rightarrow> (pyexn + bool) \<times> 's"
  save_highlight :: "clipping \<Rightarrow> string \<Rightarrow> 's \<Rightarrow> (pyexn + unit) \<times> 's"
  send_highlights :: "clipping list \<Rightarrow> 's \<Rightarrow> (pyexn + send_result) \<times> 's"
  start_export_session :: "string \<Rightarrow> 's \<Rightarrow> (pyexn + int) \<times> 's"
  complete_export_session :: "int \<Rightarrow> stats_dict \<Rightarrow> string \<Rightarrow> 's \<Rightarrow> (pyexn + unit) \<times> 's"

text \<open>Every call the core makes on a collaborator is logged with its arguments and outcome.\<close>

datatype call =
    ValidateToken "pyexn + bool"
  | Parse "pyexn + clipping list"
  | HighlightExists string string string "pyexn + bool"
  | SaveHighlight clipping string "pyexn + unit"
  | SendHighlights "clipping list" "pyexn + send_result"
  | StartSession string "pyexn + int"
  | CompleteSession int stats_dict string "pyexn + unit"

type_synonym 's world = "'s \<times> call list"

definition invoke :: "('s \<Rightarrow> 'r \<times> 's) \<Rightarrow> ('r \<Rightarrow> call) \<Rightarrow> 's world \<Rightarrow> 'r \<times> 's world" where
  "invoke f ev w = (case f (fst w) of (r, s') \<Rightarrow> (r, (s', snd w @ [ev r])))"

definition readwise_validate_token :: "'s collab \<Rightarrow> 's world \<Rightarrow> (pyexn + bool) \<times> 's world" where
  "readwise_validate_token cb = invoke (validate_token cb) ValidateToken"

definition parser_parse :: "'s collab \<Rightarrow> 's world \<Rightarrow> (pyexn + clipping list) \<times> 's world" where
  "parser_parse cb = invoke (parse cb) Parse"

definition db_highlight_exists ::
  "'s collab \<Rightarrow> string \<Rightarrow> string \<Rightarrow> string \<Rightarrow> 's world \<Rightarrow> (pyexn + bool) \<times> 's world" where
  "db_highlight_exists cb t a c = invoke (highlight_exists cb t a c) (HighlightExists t a c)"

definition db_save_highlight ::
  "'s collab \<Rightarrow> clipping \<Rightarrow> string \<Rightarrow> 's world \<Rightarrow> (pyexn + unit) \<times> 's world" where
  "db_save_highlight cb c st = invoke (save_highlight cb c st) (SaveHighlight c st)"

definition readwise_send_highlights ::
  "'s collab \<Rightarrow> clipping list \<Rightarrow> 's world \<Rightarrow> (pyexn + send_result) \<times> 's world" where
  "readwise_send_highlights cb batch = invoke (send_highlights cb batch) (SendHighlights batch)"

definition db_start_export_session ::
  "'s collab \<Rightarrow> string \<Rightarrow> 's world \<Rightarrow> (pyexn + int) \<times> 's world" where
  "db_start_export_session cb f = invoke (start_export_session cb f) (StartSession f)"

definition db_complete_export_session ::
  "'s collab \<Rightarrow> int \<Rightarrow> stats_dict \<Rightarrow> string \<Rightarrow> 's world \<Rightarrow> (pyexn + unit) \<times> 's world" where
  "db_complete_export_session cb sid d st =
     invoke (complete_export_session cb sid d st) (CompleteSession sid d st)"

section \<open>The methods of \<^verbatim>\<open>Kindle2Readwise\<close>\<close>

subsection \<open>\<^verbatim>\<open>validate_setup\<close>\<close>

definition validate_setup :: "'s collab \<Rightarrow> app \<Rightarrow> 's world \<Rightarrow> (pyexn + unit) \<times> 's world" where
  "validate_setup cb a w =
     (if \<not> file_exists cb (clippings_file a) (fst w)
      then (Inl (ValidationError (''Clippings file not found: '' @ clippings_file a)), w)
      else if dry_run a then (Inr (), w)
      else (case readwise_validate_token cb w of
              (Inl e, w') \<Rightarrow> (Inl e, w')
            | (Inr ok, w') \<Rightarrow>
                if \<not> ok then (Inl (ValidationError ''Invalid Readwise API token.''), w')
                else (Inr (), w')))"

subsection \<open>\<^verbatim>\<open>_filter_duplicates\<close>\<close>

text \<open>
  The \<^verbatim>\<open>for\<close> loop with its two accumulators. A raising \<^verbatim>\<open>highlight_exists\<close> leaves the
  loop with the exception.
\<close>

fun filter_duplicates_loop ::
  "'s collab \<Rightarrow> clipping list \<Rightarrow> clipping list \<Rightarrow> int \<Rightarrow> 's world
    \<Rightarrow> (pyexn + clipping list \<times> int) \<times> 's world" where
  "filter_duplicates_loop cb [] new_clippings duplicate_count w =
     (Inr (new_clippings, duplicate_count), w)"
| "filter_duplicates_loop cb (c # cs) new_clippings duplicate_count w =
     (if content c = [] then filter_duplicates_loop cb cs new_clippings duplicate_count w
      else (case db_highlight_exists cb (title c) (py_or (author c) []) (content c) w of
              (Inl e, w') \<Rightarrow> (Inl e, w')
            | (Inr ex, w') \<Rightarrow>
                if ex then filter_duplicates_loop cb cs new_clippings (duplicate_count + 1) w'
                else filter_duplicates_loop cb cs (new_clippings @ [c]) duplicate_count w'))"

definition filter_duplicates ::
  "'s collab \<Rightarrow> clipping list \<Rightarrow> 's world \<Rightarrow> (pyexn + clipping list \<times> int) \<times> 's world" where
  "filter_duplicates cb clippings w = filter_duplicates_loop cb clippings [] 0 w"

subsection \<open>\<^verbatim>\<open>_save_exported_highlights\<close>\<close>

text \<open>
  Each record is saved with status \<^verbatim>\<open>"success"\<close>; an exception of \<^verbatim>\<open>save_highlight\<close> is
  caught and the loop goes on. (\<^verbatim>\<open>saved_count\<close> is only logged.)
\<close>

fun save_loop :: "'s collab \<Rightarrow> clipping list \<Rightarrow> 's world \<Rightarrow> 's world" where
  "save_loop cb [] w = w"
| "save_loop cb (c # cs) w = save_loop cb cs (snd (db_save_highlight cb c ''success'' w))"

definition save_exported_highlights :: "'s collab \<Rightarrow> clipping list \<Rightarrow> 's world \<Rightarrow> 's world" where
  "save_exported_highlights cb successfully_sent_clippings w =
     (if successfully_sent_clippings = [] then w
      else save_loop cb successfully_sent_clippings w)"

subsection \<open>\<^verbatim>\<open>_handle_dry_run_export\<close> and \<^verbatim>\<open>_handle_real_export\<close>\<close>

text \<open>
  \<^verbatim>\<open>stats\<close> and \<^verbatim>\<open>status_ref\<close> are mutated in place, so the methods that receive them
  return them: the first component is the exception raised, if any, and the updates made
  before it stay visible to the caller's \<^verbatim>\<open>except\<close> and \<^verbatim>\<open>finally\<close> blocks.
\<close>

definition handle_dry_run_export :: "clipping list \<Rightarrow> export_stats \<Rightarrow> export_stats" where
  "handle_dry_run_export new_clippings stats =
     stats\<lparr>new_sent := int (length new_clippings), failed_to_send := 0\<rparr>"

definition handle_real_export ::
  "'s collab \<Rightarrow> clipping list \<Rightarrow> export_stats \<Rightarrow> string \<Rightarrow> 's world
    \<Rightarrow> pyexn option \<times> export_stats \<times> string \<times> 's world" where
  "handle_real_export cb new_clippings stats status_ref w =
     (case readwise_send_highlights cb new_clippings w of
        (Inl e, w') \<Rightarrow> (Some e, stats, status_ref, w')
      | (Inr export_result, w') \<Rightarrow>
          (let sent_count = dict_get (sent export_result) 0;
               stats1 = stats\<lparr>new_sent := sent_count,
                              failed_to_send := dict_get (failed export_result) 0\<rparr>;
               status1 = (if failed_to_send stats1 > 0 then ''partial'' else status_ref);
               successfully_sent_clippings = py_prefix new_clippings sent_count
           in (None, stats1, status1,
               if successfully_sent_clippings \<noteq> []
               then save_exported_highlights cb successfully_sent_clippings w'
               else w')))"

subsection \<open>\<^verbatim>\<open>_process_clippings\<close>\<close>

definition process_clippings ::
  "'s collab \<Rightarrow> app \<Rightarrow> clipping list \<Rightarrow> export_stats \<Rightarrow> string \<Rightarrow> 's world
    \<Rightarrow> pyexn option \<times> export_stats \<times> string \<times> 's world" where
  "process_clippings cb a all_clippings stats status_ref w =
     (case filter_duplicates cb all_clippings w of
        (Inl e, w') \<Rightarrow> (Some e, stats, status_ref, w')
      | (Inr (new_clippings, duplicate_count), w') \<Rightarrow>
          (let stats1 = stats\<lparr>duplicates_skipped := duplicate_count,
                              new_sent := int (length new_clippings)\<rparr>
           in if new_clippings \<noteq> []
              then (if dry_run a
                    then (None, handle_dry_run_export new_clippings stats1, status_ref, w')
                    else handle_real_export cb new_clippings stats1 status_ref w')
              else (None, stats1\<lparr>new_sent := 0\<rparr>, status_ref, w')))"

subsection \<open>\<^verbatim>\<open>_complete_process\<close>\<close>

definition complete_process ::
  "'s collab \<Rightarrow> app \<Rightarrow> int option \<Rightarrow> export_stats \<Rightarrow> string \<Rightarrow> 's world
    \<Rightarrow> (pyexn + unit) \<times> 's world" where
  "complete_process cb a session_id stats session_status w =
     (case session_id of
        Some sid \<Rightarrow>
          if \<not> dry_run a
          then db_complete_export_session cb sid
                 \<lparr>d_total_processed = total_processed stats, d_sent = new_sent stats,
                  d_duplicates = duplicates_skipped stats, d_failed = failed_to_send stats\<rparr>
                 session_status w
          else (Inr (), w)
      | None \<Rightarrow> (Inr (), w))"

subsection \<open>\<^verbatim>\<open>process\<close>\<close>

text \<open>
  The body of the \<^verbatim>\<open>try\<close> block: it returns the exception raised (if any), the stats
  object, the value of \<^verbatim>\<open>session_status\<close> and the list \<^verbatim>\<open>all_clippings\<close> as they are when
  the block is left.
\<close>

definition process_try ::
  "'s collab \<Rightarrow> app \<Rightarrow> export_stats \<Rightarrow> 's world
    \<Rightarrow> pyexn option \<times> export_stats \<times> string \<times> clipping list \<times> 's world" where
  "process_try cb a stats w =
     (case parser_parse cb w of
        (Inl e, w1) \<Rightarrow> (Some e, stats, ''success'', [], w1)
      | (Inr all_clippings, w1) \<Rightarrow>
          (let stats1 = stats\<lparr>total_processed := int (length all_clippings)\<rparr>
           in case process_clippings cb a all_clippings stats1 ''success'' w1 of
                (Some e, stats2, status_ref, w2) \<Rightarrow> (Some e, stats2, ''success'', all_clippings, w2)
              | (None, stats2, status_ref, w2) \<Rightarrow> (None, stats2, status_ref, all_clippings, w2)))"

text \<open>
  \<^verbatim>\<open>start_export_session\<close> is called before the \<^verbatim>\<open>try\<close>, so its exception reaches the
  caller as it is. The \<^verbatim>\<open>finally\<close> block runs on both paths; an exception raised inside
  it replaces the one in flight.
\<close>

definition process :: "'s collab \<Rightarrow> app \<Rightarrow> 's world \<Rightarrow> (pyexn + export_stats) \<times> 's world" where
  "process cb a w =
     (case (if \<not> dry_run a
            then (case db_start_export_session cb (clippings_file a) w of
                    (Inl e, w0) \<Rightarrow> (Inl e, w0)
                  | (Inr sid, w0) \<Rightarrow> (Inr (Some sid), w0))
            else (Inr None, w)) of
        (Inl e, w0) \<Rightarrow> (Inl e, w0)
      | (Inr session_id, w0) \<Rightarrow>
          (case process_try cb a ExportStats w0 of
             (None, stats, session_status, all_clippings, w1) \<Rightarrow>
               (case complete_process cb a session_id stats session_status w1 of
                  (Inl e', w2) \<Rightarrow> (Inl e', w2)
                | (Inr u, w2) \<Rightarrow> (Inr stats, w2))
           | (Some e, stats, session_status, all_clippings, w1) \<Rightarrow>
               (let stats1 = stats\<lparr>failed_to_send :=
                                     (if all_clippings \<noteq> [] then int (length all_clippings)
                                      else total_processed stats)\<rparr>;
                    stats2 = stats1\<lparr>new_sent := 0\<rparr>
                in case complete_process cb a session_id stats2 ''error'' w1 of
                     (Inl e', w2) \<Rightarrow> (Inl e', w2)
                   | (Inr u, w2) \<Rightarrow>
                       (Inl (ProcessingError (''Processing failed: '' @ exn_str e) e), w2))))"

subsection \<open>\<^verbatim>\<open>get_pending_highlights\<close>\<close>

definition highlight_dict :: "nat \<Rightarrow> clipping \<Rightarrow> pending" where
  "highlight_dict idx c =
     \<lparr>hid = int idx + 1, h_title = title c, h_author = py_or (author c) ''Unknown'',
      h_highlight = content c, h_location = py_or (location c) ''Unknown'',
      h_date = py_or (date c) ''Unknown'', original_clipping = c\<rparr>"

text \<open>The loop over \<^verbatim>\<open>enumerate(clippings)\<close>; \<open>idx\<close> is the index of the head of the list.\<close>

fun pending_loop ::
  "'s collab \<Rightarrow> nat \<Rightarrow> clipping list \<Rightarrow> pending list \<Rightarrow> 's world
    \<Rightarrow> (pyexn + pending list) \<times> 's world" where
  "pending_loop cb idx [] pending_highlights w = (Inr pending_highlights, w)"
| "pending_loop cb idx (c # cs) pending_highlights w =
     (case db_highlight_exists cb (title c) (py_or (author c) []) (content c) w of
        (Inl e, w') \<Rightarrow> (Inl e, w')
      | (Inr ex, w') \<Rightarrow>
          if \<not> ex
          then pending_loop cb (Suc idx) cs (pending_highlights @ [highlight_dict idx c]) w'
          else pending_loop cb (Suc idx) cs pending_highlights w')"

definition get_pending_highlights ::
  "'s collab \<Rightarrow> 's world \<Rightarrow> (pyexn + pending list) \<times> 's world" where
  "get_pending_highlights cb w =
     (case parser_parse cb w of
        (Inl e, w1) \<Rightarrow> (Inl e, w1)
      | (Inr clippings, w1) \<Rightarrow> pending_loop cb 0 clippings [] w1)"

subsection \<open>\<^verbatim>\<open>process_selected\<close>\<close>

text \<open>
  \<^verbatim>\<open>{h["id"]: h for h in pending_highlights}\<close>: a later entry overwrites an earlier one
  with the same key.
\<close>

definition id_to_highlight :: "pending list \<Rightarrow> int \<Rightarrow> pending option" where
  "id_to_highlight pending_highlights = map_of (rev (map (\<lambda>h. (hid h, h)) pending_highlights))"

definition selected_highlights :: "pending list \<Rightarrow> int list \<Rightarrow> pending list" where
  "selected_highlights pending_highlights selected_ids =
     map (\<lambda>i. the (id_to_highlight pending_highlights i))
         (filter (\<lambda>i. id_to_highlight pending_highlights i \<noteq> None) selected_ids)"

definition process_selected ::
  "'s collab \<Rightarrow> app \<Rightarrow> int list \<Rightarrow> 's world \<Rightarrow> (pyexn + export_stats) \<times> 's world" where
  "process_selected cb a selected_ids w =
     (case parser_parse cb w of
        (Inl e, w1) \<Rightarrow> (Inl e, w1)
      | (Inr all_clippings, w1) \<Rightarrow>
          (case get_pending_highlights cb w1 of
             (Inl e, w2) \<Rightarrow> (Inl e, w2)
           | (Inr pending_highlights, w2) \<Rightarrow>
               (let selected_clippings =
                      map original_clipping (selected_highlights pending_highlights selected_ids);
                    stats = ExportStats\<lparr>total_processed := int (length all_clippings),
                                        new_sent := 0,
                                        duplicates_skipped :=
                                          int (length all_clippings) - int (length pending_highlights),
                                        failed_to_send := 0\<rparr>
                in if selected_clippings \<noteq> []
                   then (if dry_run a
                         then (Inr (stats\<lparr>new_sent := int (length selected_clippings)\<rparr>), w2)
                         else (case readwise_send_highlights cb selected_clippings w2 of
                                 (Inl e, w3) \<Rightarrow> (Inl e, w3)
                               | (Inr export_result, w3) \<Rightarrow>
                                   (let sent_count = dict_get (sent export_result) 0;
                                        stats1 = stats\<lparr>new_sent := sent_count,
                                                       failed_to_send :=
                                                         dict_get (failed export_result) 0\<rparr>
                                    in (Inr stats1,
                                        if sent_count > 0
                                        then save_exported_highlights cb
                                               (py_prefix selected_clippings sent_count) w3
                                        else w3))))
                   else (Inr stats, w2))))"

section \<open>Reading the log\<close>

text \<open>The log of calls at the end of a run.\<close>

definition trace :: "'r \<times> 's world \<Rightarrow> call list" where
  "trace x = snd (snd x)"

text \<open>The state of the collaborators at the end of a run.\<close>

definition final_state :: "'r \<times> 's world \<Rightarrow> 's" where
  "final_state x = fst (snd x)"

text \<open>The arguments of the \<^verbatim>\<open>save_highlight\<close> calls, in order.\<close>

fun save_of :: "call \<Rightarrow> (clipping \<times> string) list" where
  "save_of (SaveHighlight c st r) = [(c, st)]"
| "save_of _ = []"

definition save_args :: "call list \<Rightarrow> (clipping \<times> string) list" where
  "save_args tr = concat (map save_of tr)"

text \<open>The \<^verbatim>\<open>send_highlights\<close> calls: the batch submitted and the sink's answer.\<close>

fun send_of :: "call \<Rightarrow> (clipping list \<times> (pyexn + send_result)) list" where
  "send_of (SendHighlights batch r) = [(batch, r)]"
| "send_of _ = []"

definition sends :: "call list \<Rightarrow> (clipping list \<times> (pyexn + send_result)) list" where
  "sends tr = concat (map send_of tr)"

text \<open>The lists of records that \<^verbatim>\<open>parse\<close> returned.\<close>

fun parsed_of :: "call \<Rightarrow> clipping list list" where
  "parsed_of (Parse (Inr cs)) = [cs]"
| "parsed_of _ = []"

definition parses :: "call list \<Rightarrow> clipping list list" where
  "parses tr = concat (map parsed_of tr)"

text \<open>The session calls (\<^verbatim>\<open>start_export_session\<close> and \<^verbatim>\<open>complete_export_session\<close>).\<close>

fun session_of :: "call \<Rightarrow> call list" where
  "session_of (StartSession f r) = [StartSession f r]"
| "session_of (CompleteSession sid d st r) = [CompleteSession sid d st r]"
| "session_of _ = []"

definition session_calls :: "call list \<Rightarrow> call list" where
  "session_calls tr = concat (map session_of tr)"

text \<open>The records found absent: the \<^verbatim>\<open>highlight_exists\<close> calls answered \<^verbatim>\<open>False\<close>.\<close>

fun absent_of :: "call \<Rightarrow> (string \<times> string \<times> string) list" where
  "absent_of (HighlightExists t a c (Inr ex)) = (if ex then [] else [(t, a, c)])"
| "absent_of _ = []"

definition absent_answers :: "call list \<Rightarrow> (string \<times> string \<times> string) list" where
  "absent_answers tr = concat (map absent_of tr)"

text \<open>
  The exceptions raised inside the \<^verbatim>\<open>try\<close> block of \<^verbatim>\<open>process\<close>: those of \<^verbatim>\<open>parse\<close>,
  \<^verbatim>\<open>highlight_exists\<close> and \<^verbatim>\<open>send_highlights\<close>. (An exception of \<^verbatim>\<open>save_highlight\<close> is caught
  in \<^verbatim>\<open>_save_exported_highlights\<close>; the session calls are outside the \<^verbatim>\<open>try\<close>.)
\<close>

fun raised_of :: "call \<Rightarrow> pyexn list" where
  "raised_of (Parse (Inl e)) = [e]"
| "raised_of (HighlightExists t a c (Inl e)) = [e]"
| "raised_of (SendHighlights batch (Inl e)) = [e]"
| "raised_of _ = []"

definition raised_in_try :: "call list \<Rightarrow> pyexn list" where
  "raised_in_try tr = concat (map raised_of tr)"

text \<open>The invariant of \<^verbatim>\<open>ExportStats\<close>, on the returned object and on the session's dictionary.\<close>

definition stats_inv :: "export_stats \<Rightarrow> bool" where
  "stats_inv st \<longleftrightarrow> new_sent st + failed_to_send st \<le> total_processed st - duplicates_skipped st"

definition dict_inv :: "stats_dict \<Rightarrow> bool" where
  "dict_inv d \<longleftrightarrow> d_sent d + d_failed d \<le> d_total_processed d - d_duplicates d"

section \<open>A store that keeps a ledger\<close>

text \<open>
  Modelled from the spec: the HighlightStore of section 4.2 (\<^verbatim>\<open>database.py\<close> is not part
  of the sources at hand). \<^verbatim>\<open>exists\<close> is true iff a record with this DedupKey was persisted
  with a successful export status; \<^verbatim>\<open>save\<close> persists the record with the given status and
  does not reject a duplicate; \<^verbatim>\<open>start_session\<close> opens a session record and returns its
  identifier; \<^verbatim>\<open>complete_session\<close> closes it with the final counters and status.
\<close>

record store =
  ledger :: "(clipping \<times> string) list"
  session_log :: "(int \<times> string \<times> (stats_dict \<times> string) option) list"

definition store_exists :: "store \<Rightarrow> string \<Rightarrow> string \<Rightarrow> string \<Rightarrow> bool" where
  "store_exists s t a c \<longleftrightarrow>
     ((t, a, c), ''success'') \<in> set (map (\<lambda>row. (dedup_key (fst row), snd row)) (ledger s))"

text \<open>The answer of \<^verbatim>\<open>exists\<close> for the DedupKey of a record.\<close>

definition in_store :: "store \<Rightarrow> clipping \<Rightarrow> bool" where
  "in_store s c = store_exists s (title c) (py_or (author c) []) (content c)"

definition store_save :: "clipping \<Rightarrow> string \<Rightarrow> store \<Rightarrow> store" where
  "store_save r st s = s\<lparr>ledger := ledger s @ [(r, st)]\<rparr>"

definition store_start_session :: "string \<Rightarrow> store \<Rightarrow> int \<times> store" where
  "store_start_session f s =
     (let sid = int (length (session_log s)) + 1
      in (sid, s\<lparr>session_log := session_log s @ [(sid, f, None)]\<rparr>))"

definition store_complete_session :: "int \<Rightarrow> stats_dict \<Rightarrow> string \<Rightarrow> store \<Rightarrow> store" where
  "store_complete_session sid d st s =
     s\<lparr>session_log :=
         map (\<lambda>row. if fst row = sid then (sid, fst (snd row), Some (d, st)) else row)
             (session_log s)\<rparr>"

text \<open>
  The collaborators around that store: a source file that exists and parses to \<open>src\<close> on
  every call, a valid token, a sink that answers \<open>sink batch\<close>, and a \<^verbatim>\<open>save\<close> that
  raises for the records outside \<open>save_ok\<close>.
\<close>

definition ledger_collab ::
  "clipping list \<Rightarrow> (clipping list \<Rightarrow> pyexn + send_result) \<Rightarrow> (clipping \<Rightarrow> bool) \<Rightarrow> store collab" where
  "ledger_collab src sink save_ok =
     \<lparr>file_exists = (\<lambda>p s. True),
      validate_token = (\<lambda>s. (Inr True, s)),
      parse = (\<lambda>s. (Inr src, s)),
      highlight_exists = (\<lambda>t a c s. (Inr (store_exists s t a c), s)),
      save_highlight = (\<lambda>r st s. if save_ok r then (Inr (), store_save r st s)
                                 else (Inl (StorageError ''save failed''), s)),
      send_highlights = (\<lambda>batch s. (sink batch, s)),
      start_export_session = (\<lambda>f s. case store_start_session f s of (sid, s') \<Rightarrow> (Inr sid, s')),
      complete_export_session = (\<lambda>sid d st s. (Inr (), store_complete_session sid d st s))\<rparr>"

text \<open>A sink that accepts every record of the batch.\<close>

definition accept_all :: "clipping list \<Rightarrow> pyexn + send_result" where
  "accept_all batch = Inr \<lparr>sent = Some (int (length batch)), failed = Some 0\<rparr>"

text \<open>A sink that accepts the first \<open>k\<close> records of the batch and rejects the others.\<close>

definition accept_first :: "int \<Rightarrow> clipping list \<Rightarrow> pyexn + send_result" where
  "accept_first k batch = Inr \<lparr>sent = Some k, failed = Some (int (length batch) - k)\<rparr>"

text \<open>A sink whose transport fails.\<close>

definition sink_down :: "clipping list \<Rightarrow> pyexn + send_result" where
  "sink_down batch = Inl (DeliveryError ''connection refused'')"

definition empty_store :: store where
  "empty_store = \<lparr>ledger = [], session_log = []\<rparr>"

text \<open>The store after the records \<open>cs\<close> were saved with status \<^verbatim>\<open>"success"\<close>.\<close>

definition store_with :: "clipping list \<Rightarrow> store" where
  "store_with cs = \<lparr>ledger = map (\<lambda>c. (c, ''success'')) cs, session_log = []\<rparr>"

text \<open>Sample records.\<close>

definition clip :: "string \<Rightarrow> string \<Rightarrow> clipping" where
  "clip t c = \<lparr>title = t, author = Some ''Author'', content = c, location = None, date = None\<rparr>"

definition live :: app where
  "live = \<lparr>clippings_file = ''My Clippings.txt'', dry_run = False\<rparr>"

definition preview :: app where
  "preview = \<lparr>clippings_file = ''My Clippings.txt'', dry_run = True\<rparr>"



section \<open>Auxiliary facts\<close>

lemma invoke_pair: "invoke f ev (s, tr) = (fst (f s), snd (f s), tr @ [ev (fst (f s))])"
  by (simp add: invoke_def split: prod.split)

lemmas call_defs = readwise_validate_token_def parser_parse_def db_highlight_exists_def
  db_save_highlight_def readwise_send_highlights_def db_start_export_session_def
  db_complete_export_session_def

lemmas log_defs = save_args_def sends_def session_calls_def absent_answers_def raised_in_try_def
  parses_def

lemma subseq_skip: "subseq xs (a @ cs) \<Longrightarrow> subseq xs (a @ c # cs)"
proof -
  assume h: "subseq xs (a @ cs)"
  have "subseq (a @ cs) (a @ c # cs)" by (induction a) auto
  with h show ?thesis using subseq_order.order_trans by blast
qed

lemma log_simps:
  "save_args [] = []" "save_args (tr @ tr') = save_args tr @ save_args tr'"
  "save_args (c # tr) = save_of c @ save_args tr"
  "sends [] = []" "sends (tr @ tr') = sends tr @ sends tr'"
  "sends (c # tr) = send_of c @ sends tr"
  "session_calls [] = []" "session_calls (tr @ tr') = session_calls tr @ session_calls tr'"
  "session_calls (c # tr) = session_of c @ session_calls tr"
  "absent_answers [] = []" "absent_answers (tr @ tr') = absent_answers tr @ absent_answers tr'"
  "absent_answers (c # tr) = absent_of c @ absent_answers tr"
  "raised_in_try [] = []" "raised_in_try (tr @ tr') = raised_in_try tr @ raised_in_try tr'"
  "raised_in_try (c # tr) = raised_of c @ raised_in_try tr"
  "parses [] = []" "parses (tr @ tr') = parses tr @ parses tr'"
  "parses (c # tr) = parsed_of c @ parses tr"
  by (simp_all add: log_defs)

text \<open>The save loop calls \<^verbatim>\<open>save_highlight\<close> once for each record, in order, and nothing else.\<close>

lemma save_loop_log:
  "save_loop cb cs (s, tr) = (s', tr') \<Longrightarrow>
     save_args tr' = save_args tr @ map (\<lambda>c. (c, ''success'')) cs \<and> sends tr' = sends tr \<and>
     session_calls tr' = session_calls tr \<and> absent_answers tr' = absent_answers tr \<and>
     raised_in_try tr' = raised_in_try tr \<and> parses tr' = parses tr"
proof (induction cs arbitrary: s tr)
  case Nil
  then show ?case by simp
next
  case (Cons c cs)
  from Cons.prems Cons.IH[of "snd (save_highlight cb c ''success'' s)"
      "tr @ [SaveHighlight c ''success'' (fst (save_highlight cb c ''success'' s))]"]
  show ?case by (simp add: call_defs invoke_pair log_defs)
qed

text \<open>The filter loop only queries the store; what it returns, it returns in parse order.\<close>

lemma filter_loop_log:
  "filter_duplicates_loop cb cs new dup (s, tr) = (r, s', tr') \<Longrightarrow>
     save_args tr' = save_args tr \<and> sends tr' = sends tr \<and>
     session_calls tr' = session_calls tr \<and> parses tr' = parses tr \<and>
     (case r of Inl e \<Rightarrow> raised_in_try tr' = raised_in_try tr @ [e]
      | Inr (new', dup') \<Rightarrow> raised_in_try tr' = raised_in_try tr \<and>
          int (length new') + int (length (absent_answers tr)) =
            int (length new) + int (length (absent_answers tr')) \<and>
          subseq new' (new @ cs) \<and>
          int (length new') + dup' \<le> int (length new) + dup + int (length cs) \<and> dup \<le> dup')"
proof (induction cs arbitrary: new dup s tr)
  case Nil
  then show ?case by auto
next
  case (Cons c cs)
  show ?case
  proof (cases "content c = []")
    case True
    with Cons.prems Cons.IH[of new dup s tr] show ?thesis
      by (auto split: sum.splits simp: subseq_skip)
  next
    case False
    let ?f = "highlight_exists cb (title c) (py_or (author c) []) (content c) s"
    let ?tr = "tr @ [HighlightExists (title c) (py_or (author c) []) (content c) (fst ?f)]"
    show ?thesis
    proof (cases "fst ?f")
      case (Inl e)
      with False Cons.prems show ?thesis
        by (auto simp: call_defs invoke_pair log_defs)
    next
      case (Inr ex)
      show ?thesis
      proof (cases ex)
        case True
        with False Inr Cons.prems Cons.IH[of new "dup + 1" "snd ?f" ?tr] show ?thesis
          by (auto simp: call_defs invoke_pair log_defs subseq_skip split: sum.splits)
      next
        case F: False
        with False Inr Cons.prems Cons.IH[of "new @ [c]" dup "snd ?f" ?tr] show ?thesis
          by (auto simp: call_defs invoke_pair log_defs split: sum.splits)
      qed
    qed
  qed
qed

lemma trace_simp: "trace (r, s, tr) = tr"
  by (simp add: trace_def)

lemma pending_loop_log:
  "pending_loop cb idx cs acc (s, tr) = (r, s', tr') \<Longrightarrow>
     save_args tr' = save_args tr \<and> sends tr' = sends tr \<and>
     session_calls tr' = session_calls tr \<and> parses tr' = parses tr"
proof (induction cs arbitrary: idx acc s tr)
  case Nil
  then show ?case by auto
next
  case (Cons c cs)
  let ?f = "highlight_exists cb (title c) (py_or (author c) []) (content c) s"
  let ?tr = "tr @ [HighlightExists (title c) (py_or (author c) []) (content c) (fst ?f)]"
  show ?case
  proof (cases "fst ?f")
    case (Inl e)
    with Cons.prems show ?thesis
      by (auto simp: call_defs invoke_pair log_defs)
  next
    case (Inr ex)
    with Cons.prems Cons.IH[of "Suc idx" _ "snd ?f" ?tr] show ?thesis
      by (auto simp: call_defs invoke_pair log_defs split: if_splits)
  qed
qed

lemma id_to_highlight_None: "id_to_highlight pend i \<noteq> None \<longleftrightarrow> i \<in> hid ` set pend"
  by (force simp: id_to_highlight_def map_of_eq_None_iff)

lemma length_selected:
  "length (selected_highlights pend ids) = length (filter (\<lambda>i. i \<in> hid ` set pend) ids)"
  using id_to_highlight_None[of pend] by (simp add: selected_highlights_def)

lemma selected_nil:
  "selected_highlights pend ids = [] \<Longrightarrow> filter (\<lambda>i. i \<in> hid ` set pend) ids = []"
  using length_selected[of pend ids] by simp

text \<open>Unfolding the methods and the sample collaborators, for runs on concrete inputs.\<close>

lemmas run_defs = process_def process_try_def process_clippings_def filter_duplicates_def
  complete_process_def handle_dry_run_export_def handle_real_export_def
  save_exported_highlights_def process_selected_def get_pending_highlights_def
  selected_highlights_def id_to_highlight_def highlight_dict_def validate_setup_def

lemmas env_defs = ledger_collab_def store_exists_def store_save_def store_start_session_def
  store_complete_session_def accept_all_def accept_first_def sink_down_def empty_store_def
  clip_def live_def preview_def dedup_key_def py_or_def py_prefix_def dict_get_def
  ExportStats_def trace_def final_state_def store_with_def in_store_def

section \<open>Preview mode\<close>

lemma process_preview:
  assumes "dry_run a"
  shows "session_calls (trace (process cb a (s, []))) = [] \<and>
         sends (trace (process cb a (s, []))) = [] \<and>
         save_args (trace (process cb a (s, []))) = [] \<and>
         (\<forall>st. fst (process cb a (s, [])) = Inr st \<longrightarrow>
            failed_to_send st = 0 \<and>
            new_sent st = int (length (absent_answers (trace (process cb a (s, []))))))"
proof -
  obtain r s' tr where p: "process cb a (s, []) = (r, s', tr)"
    by (metis prod_cases3)
  from p assms have "session_calls tr = [] \<and> sends tr = [] \<and> save_args tr = [] \<and>
     (\<forall>st. r = Inr st \<longrightarrow> failed_to_send st = 0 \<and> new_sent st = int (length (absent_answers tr)))"
    unfolding process_def process_try_def process_clippings_def filter_duplicates_def
      complete_process_def handle_dry_run_export_def
    by (auto simp: call_defs invoke_pair ExportStats_def Let_def log_defs
        split: prod.splits sum.splits option.splits if_splits dest!: filter_loop_log)
  with p show ?thesis by (simp add: trace_simp)
qed

lemma selected_preview:
  assumes "dry_run a"
  shows "session_calls (trace (process_selected cb a ids (s, []))) = [] \<and>
         sends (trace (process_selected cb a ids (s, []))) = [] \<and>
         save_args (trace (process_selected cb a ids (s, []))) = [] \<and>
         (\<forall>st. fst (process_selected cb a ids (s, [])) = Inr st \<longrightarrow>
            failed_to_send st = 0 \<and>
            (\<exists>pend. fst (get_pending_highlights cb (snd (parser_parse cb (s, [])))) = Inr pend \<and>
               new_sent st = int (length (filter (\<lambda>i. i \<in> hid ` set pend) ids))))"
proof -
  obtain r s' tr where p: "process_selected cb a ids (s, []) = (r, s', tr)"
    by (metis prod_cases3)
  from p assms have "session_calls tr = [] \<and> sends tr = [] \<and> save_args tr = [] \<and>
     (\<forall>st. r = Inr st \<longrightarrow> failed_to_send st = 0 \<and>
            (\<exists>pend. fst (get_pending_highlights cb (snd (parser_parse cb (s, [])))) = Inr pend \<and>
               new_sent st = int (length (filter (\<lambda>i. i \<in> hid ` set pend) ids))))"
    unfolding process_selected_def get_pending_highlights_def
    by (auto simp: call_defs invoke_pair ExportStats_def Let_def log_defs length_selected
        selected_nil split: prod.splits sum.splits option.splits if_splits
        dest!: pending_loop_log)
  with p show ?thesis by (simp add: trace_simp)
qed

text \<open>
  Claim C3, as the code has it. In preview mode neither \<^verbatim>\<open>process\<close> nor
  \<^verbatim>\<open>process_selected\<close> calls \<^verbatim>\<open>start_export_session\<close>, \<^verbatim>\<open>complete_export_session\<close>,
  \<^verbatim>\<open>send_highlights\<close> or \<^verbatim>\<open>save_highlight\<close>, and the stats they return have
  \<^verbatim>\<open>failed_to_send = 0\<close>. In \<^verbatim>\<open>process\<close>, \<^verbatim>\<open>new_sent\<close> is the number of records the filter
  found absent from the store (the pending count); in \<^verbatim>\<open>process_selected\<close> it is the number
  of selected ids that name an entry of the pending view, not the size of that view.
\<close>

theorem preview_does_not_mutate:
  assumes "dry_run a"
  shows "(session_calls (trace (process cb a (s, []))) = [] \<and>
          sends (trace (process cb a (s, []))) = [] \<and>
          save_args (trace (process cb a (s, []))) = [] \<and>
          (\<forall>st. fst (process cb a (s, [])) = Inr st \<longrightarrow>
             failed_to_send st = 0 \<and>
             new_sent st = int (length (absent_answers (trace (process cb a (s, []))))))) \<and>
         (session_calls (trace (process_selected cb a ids (s, []))) = [] \<and>
          sends (trace (process_selected cb a ids (s, []))) = [] \<and>
          save_args (trace (process_selected cb a ids (s, []))) = [] \<and>
          (\<forall>st. fst (process_selected cb a ids (s, [])) = Inr st \<longrightarrow>
             failed_to_send st = 0 \<and>
             (\<exists>pend. fst (get_pending_highlights cb (snd (parser_parse cb (s, [])))) = Inr pend \<and>
                new_sent st = int (length (filter (\<lambda>i. i \<in> hid ` set pend) ids)))))"
  using process_preview[OF assms, of cb s] selected_preview[OF assms, of cb ids s]
  by blast

theorem preview_does_not_mutate_witness:
  "dry_run preview \<and>
   fst (process (ledger_collab [clip ''T'' ''c'', clip ''U'' []] accept_all (\<lambda>c. True)) preview
          (empty_store, [])) =
     Inr \<lparr>total_processed = 2, new_sent = 1, duplicates_skipped = 0, failed_to_send = 0\<rparr> \<and>
   absent_answers (trace (process (ledger_collab [clip ''T'' ''c'', clip ''U'' []] accept_all
          (\<lambda>c. True)) preview (empty_store, []))) = [(''T'', ''Author'', ''c'')] \<and>
   fst (process_selected (ledger_collab [clip ''T'' ''c'', clip ''U'' []] accept_all (\<lambda>c. True))
          preview [1] (empty_store, [])) =
     Inr \<lparr>total_processed = 2, new_sent = 1, duplicates_skipped = 0, failed_to_send = 0\<rparr> \<and>
   trace (process_selected (ledger_collab [clip ''T'' ''c'', clip ''U'' []] accept_all (\<lambda>c. True))
          preview [1] (empty_store, [])) =
     [Parse (Inr [clip ''T'' ''c'', clip ''U'' []]), Parse (Inr [clip ''T'' ''c'', clip ''U'' []]),
      HighlightExists ''T'' ''Author'' ''c'' (Inr False),
      HighlightExists ''U'' ''Author'' [] (Inr False)]"
  using preview_does_not_mutate[of preview
      "ledger_collab [clip ''T'' ''c'', clip ''U'' []] accept_all (\<lambda>c. True)" empty_store "[1]"]
  by (simp add: run_defs env_defs call_defs invoke_pair log_defs)

text \<open>
  Against C3 as it is worded: a preview run of \<^verbatim>\<open>process_selected\<close> with no id selected
  returns \<^verbatim>\<open>new_sent = 0\<close> while the pending view it computed holds one entry.
\<close>

theorem preview_selected_pending_count_counterexample:
  "fst (process_selected (ledger_collab [clip ''T'' ''c''] accept_all (\<lambda>c. True)) preview []
          (empty_store, [])) =
     Inr \<lparr>total_processed = 1, new_sent = 0, duplicates_skipped = 0, failed_to_send = 0\<rparr> \<and>
   map hid (projr (fst (get_pending_highlights
          (ledger_collab [clip ''T'' ''c''] accept_all (\<lambda>c. True)) (empty_store, [])))) = [1]"
  by (simp add: run_defs env_defs call_defs invoke_pair)

section \<open>Selective export\<close>

lemma selected_filter:
  "selected_highlights pend (filter (\<lambda>i. i \<in> hid ` set pend) ids) = selected_highlights pend ids"
  using id_to_highlight_None[of pend]
  by (simp add: selected_highlights_def cong: filter_cong)

lemma selected_no_session:
  "session_calls (trace (process_selected cb a ids (s, []))) = []"
proof -
  obtain r s' tr where p: "process_selected cb a ids (s, []) = (r, s', tr)"
    by (metis prod_cases3)
  from p have "session_calls tr = []"
    unfolding process_selected_def get_pending_highlights_def save_exported_highlights_def
    by (auto simp: call_defs invoke_pair Let_def log_simps
        split: prod.splits sum.splits option.splits if_splits
        dest!: pending_loop_log save_loop_log)
  with p show ?thesis by (simp add: trace_simp)
qed

text \<open>
  Claim C10. \<^verbatim>\<open>process_selected\<close> never calls \<^verbatim>\<open>start_export_session\<close> or
  \<^verbatim>\<open>complete_export_session\<close>, in either mode: its outcome is what it returns. The ids
  that name no entry of the pending view are ignored: the run with them is the run without
  them (same result, same collaborator state, same calls), so they raise nothing and
  count for nothing.
\<close>

theorem selected_ignores_unknown_ids:
  "session_calls (trace (process_selected cb a ids (s, []))) = [] \<and>
   (\<forall>pend. fst (get_pending_highlights cb (snd (parser_parse cb (s, [])))) = Inr pend \<longrightarrow>
      process_selected cb a (filter (\<lambda>i. i \<in> hid ` set pend) ids) (s, []) =
      process_selected cb a ids (s, []))"
proof (intro conjI allI impI)
  show "session_calls (trace (process_selected cb a ids (s, []))) = []"
    by (rule selected_no_session)
next
  fix pend
  assume g: "fst (get_pending_highlights cb (snd (parser_parse cb (s, [])))) = Inr pend"
  then show "process_selected cb a (filter (\<lambda>i. i \<in> hid ` set pend) ids) (s, []) =
      process_selected cb a ids (s, [])"
    unfolding process_selected_def
    by (auto simp: selected_filter split: prod.splits sum.splits)
qed



theorem selected_ignores_unknown_ids_witness:
  "fst (get_pending_highlights (ledger_collab [clip ''T'' ''c''] accept_all (\<lambda>c. True))
          (snd (parser_parse (ledger_collab [clip ''T'' ''c''] accept_all (\<lambda>c. True))
                  (empty_store, [])))) = Inr [highlight_dict 0 (clip ''T'' ''c'')] \<and>
   process_selected (ledger_collab [clip ''T'' ''c''] accept_all (\<lambda>c. True)) live [7, 1, 0]
       (empty_store, []) =
   process_selected (ledger_collab [clip ''T'' ''c''] accept_all (\<lambda>c. True)) live [1]
       (empty_store, []) \<and>
   fst (process_selected (ledger_collab [clip ''T'' ''c''] accept_all (\<lambda>c. True)) live [7, 1, 0]
       (empty_store, [])) =
     Inr \<lparr>total_processed = 1, new_sent = 1, duplicates_skipped = 0, failed_to_send = 0\<rparr>"
proof -
  have g: "fst (get_pending_highlights (ledger_collab [clip ''T'' ''c''] accept_all (\<lambda>c. True))
          (snd (parser_parse (ledger_collab [clip ''T'' ''c''] accept_all (\<lambda>c. True))
                  (empty_store, [])))) = Inr [highlight_dict 0 (clip ''T'' ''c'')]"
    by (simp add: run_defs env_defs call_defs invoke_pair)
  from selected_ignores_unknown_ids[of "ledger_collab [clip ''T'' ''c''] accept_all (\<lambda>c. True)"
      live "[7, 1, 0]" empty_store] g
  have "process_selected (ledger_collab [clip ''T'' ''c''] accept_all (\<lambda>c. True)) live
          (filter (\<lambda>i. i \<in> hid ` set [highlight_dict 0 (clip ''T'' ''c'')]) [7, 1, 0])
          (empty_store, []) =
        process_selected (ledger_collab [clip ''T'' ''c''] accept_all (\<lambda>c. True)) live [7, 1, 0]
          (empty_store, [])"
    by blast
  with g show ?thesis
    by (simp add: run_defs env_defs call_defs invoke_pair Let_def)
qed

section \<open>What \<^verbatim>\<open>process\<close> does, step by step\<close>


lemma save_exported_loop: "save_exported_highlights cb cs w = save_loop cb cs w"
  by (cases cs) (simp_all add: save_exported_highlights_def)

lemma handle_real_export_spec:
  assumes h: "handle_real_export cb new st0 status0 (s, tr) = (oe, st, status, s', tr')"
  shows "session_calls tr' = session_calls tr \<and> parses tr' = parses tr \<and>
         absent_answers tr' = absent_answers tr \<and>
         sends tr' = sends tr @ [(new, fst (send_highlights cb new s))] \<and>
         (case fst (send_highlights cb new s) of
            Inl e \<Rightarrow> oe = Some e \<and> st = st0 \<and> status = status0 \<and>
              save_args tr' = save_args tr \<and> raised_in_try tr' = raised_in_try tr @ [e]
          | Inr res \<Rightarrow> oe = None \<and>
              st = st0\<lparr>new_sent := dict_get (sent res) 0,
                       failed_to_send := dict_get (failed res) 0\<rparr> \<and>
              status = (if 0 < dict_get (failed res) 0 then ''partial'' else status0) \<and>
              save_args tr' =
                save_args tr @ map (\<lambda>c. (c, ''success'')) (py_prefix new (dict_get (sent res) 0)) \<and>
              raised_in_try tr' = raised_in_try tr)"
proof (cases "fst (send_highlights cb new s)")
  case (Inl e)
  with h show ?thesis
    by (auto simp: handle_real_export_def call_defs invoke_pair log_simps)
next
  case (Inr res)
  let ?w = "(snd (send_highlights cb new s), tr @ [SendHighlights new (Inr res)])"
  let ?cs = "py_prefix new (dict_get (sent res) 0)"
  have sv: "save_loop cb ?cs ?w = (s', tr')"
    using h Inr
    by (cases "?cs = []")
      (simp_all add: handle_real_export_def call_defs invoke_pair Let_def save_exported_loop)
  from save_loop_log[OF sv] h Inr show ?thesis
    by (auto simp: handle_real_export_def call_defs invoke_pair Let_def log_simps)
qed


lemma process_try_spec:
  assumes h: "process_try cb a ExportStats (s, tr) = (oe, st, status, all, s', tr')"
  shows "session_calls tr' = session_calls tr \<and>
         raised_in_try tr' = raised_in_try tr @ (case oe of None \<Rightarrow> [] | Some e \<Rightarrow> [e]) \<and>
         total_processed st = int (length all) \<and> 0 \<le> duplicates_skipped st \<and>
         duplicates_skipped st \<le> total_processed st \<and>
         ((sends tr' = sends tr \<and> save_args tr' = save_args tr \<and>
           (oe = None \<longrightarrow> failed_to_send st = 0 \<and> status = ''success'' \<and> 0 \<le> new_sent st \<and>
              new_sent st + duplicates_skipped st \<le> total_processed st)) \<or>
          (\<exists>batch. \<not> dry_run a \<and> batch \<noteq> [] \<and>
             parses tr' = parses tr @ [all] \<and> subseq batch all \<and>
             int (length batch) + duplicates_skipped st \<le> total_processed st \<and>
             ((\<exists>e. sends tr' = sends tr @ [(batch, Inl e)] \<and> oe = Some e \<and>
                  save_args tr' = save_args tr) \<or>
              (\<exists>res. sends tr' = sends tr @ [(batch, Inr res)] \<and> oe = None \<and>
                  new_sent st = dict_get (sent res) 0 \<and>
                  failed_to_send st = dict_get (failed res) 0 \<and>
                  status = (if 0 < dict_get (failed res) 0 then ''partial'' else ''success'') \<and>
                  save_args tr' = save_args tr @
                    map (\<lambda>c. (c, ''success'')) (py_prefix batch (dict_get (sent res) 0))))))"
proof (cases "fst (parse cb s)")
  case (Inl e)
  with h show ?thesis
    by (auto simp: process_try_def call_defs invoke_pair log_simps ExportStats_def)
next
  case (Inr cs)
  let ?w1 = "(snd (parse cb s), tr @ [Parse (Inr cs)])"
  obtain fr s1 tr1 where f: "filter_duplicates_loop cb cs [] 0 ?w1 = (fr, s1, tr1)"
    by (metis prod_cases3)
  note fl = filter_loop_log[OF f]
  show ?thesis
  proof (cases fr)
    case (Inl e)
    with h Inr f fl show ?thesis
      by (auto simp: process_try_def process_clippings_def filter_duplicates_def call_defs
          invoke_pair log_simps ExportStats_def)
  next
    case fr: (Inr p)
    obtain new dup where p: "p = (new, dup)" by (cases p)
    show ?thesis
    proof (cases "new = [] \<or> dry_run a")
      case True
      with h Inr f fr p have r: "oe = None" "all = cs" "s' = s1" "tr' = tr1" "status = ''success''"
        "st = \<lparr>total_processed = int (length cs),
               new_sent = (if new = [] then 0 else int (length new)),
               duplicates_skipped = dup, failed_to_send = 0\<rparr>"
        by (auto simp: process_try_def process_clippings_def filter_duplicates_def call_defs
            invoke_pair ExportStats_def handle_dry_run_export_def Let_def split: if_splits)
      with fl fr p show ?thesis
        by (auto simp: log_simps)
    next
      case False
      let ?st1 = "ExportStats\<lparr>total_processed := int (length cs), duplicates_skipped := dup,
                      new_sent := int (length new)\<rparr>"
      obtain oe2 st2 status2 s2 tr2 where
        e: "handle_real_export cb new ?st1 ''success'' (s1, tr1) = (oe2, st2, status2, s2, tr2)"
        by (metis prod_cases5)
      note hs = handle_real_export_spec[OF e]
      from h Inr f fr p False e have r: "oe = oe2" "st = st2" "all = cs" "s' = s2" "tr' = tr2"
        "status = (case oe2 of None \<Rightarrow> status2 | Some x \<Rightarrow> ''success'')"
        by (auto simp: process_try_def process_clippings_def filter_duplicates_def call_defs
            invoke_pair Let_def split: option.splits)
      have "\<exists>batch. \<not> dry_run a \<and> batch \<noteq> [] \<and>
             parses tr' = parses tr @ [all] \<and> subseq batch all \<and>
             int (length batch) + duplicates_skipped st \<le> total_processed st \<and>
             ((\<exists>e. sends tr' = sends tr @ [(batch, Inl e)] \<and> oe = Some e \<and>
                  save_args tr' = save_args tr) \<or>
              (\<exists>res. sends tr' = sends tr @ [(batch, Inr res)] \<and> oe = None \<and>
                  new_sent st = dict_get (sent res) 0 \<and>
                  failed_to_send st = dict_get (failed res) 0 \<and>
                  status = (if 0 < dict_get (failed res) 0 then ''partial'' else ''success'') \<and>
                  save_args tr' = save_args tr @
                    map (\<lambda>c. (c, ''success'')) (py_prefix batch (dict_get (sent res) 0))))"
        apply (rule exI[of _ new])
        using False fl fr p hs r
        by (auto simp: log_simps ExportStats_def split: sum.splits)
      moreover have "session_calls tr' = session_calls tr \<and>
         raised_in_try tr' = raised_in_try tr @ (case oe of None \<Rightarrow> [] | Some e \<Rightarrow> [e]) \<and>
         total_processed st = int (length all) \<and> 0 \<le> duplicates_skipped st \<and>
         duplicates_skipped st \<le> total_processed st"
        using False fl fr p hs r
        by (auto simp: log_simps ExportStats_def split: sum.splits)
      ultimately show ?thesis by blast
    qed
  qed
qed


lemma process_dry:
  assumes "dry_run a"
    and "process_try cb a ExportStats (s, []) = (oe, st, status, all, s1, tr1)"
  shows "process cb a (s, []) =
      ((case oe of None \<Rightarrow> Inr st
        | Some e \<Rightarrow> Inl (ProcessingError (''Processing failed: '' @ exn_str e) e)), s1, tr1)"
  using assms by (simp add: process_def complete_process_def Let_def split: option.splits)

lemma process_start_fails:
  assumes "\<not> dry_run a" and "fst (start_export_session cb (clippings_file a) s) = Inl e"
  shows "process cb a (s, []) =
      (Inl e, snd (start_export_session cb (clippings_file a) s),
       [StartSession (clippings_file a) (Inl e)])"
  using assms by (simp add: process_def call_defs invoke_pair)

lemma process_live:
  assumes "\<not> dry_run a" and "fst (start_export_session cb (clippings_file a) s) = Inr sid"
    and t: "process_try cb a ExportStats
          (snd (start_export_session cb (clippings_file a) s),
           [StartSession (clippings_file a) (Inr sid)]) = (oe, st, status, all, s1, tr1)"
  shows "\<exists>cr s2. process cb a (s, []) =
      ((case cr of Inl e' \<Rightarrow> Inl e'
        | Inr u \<Rightarrow> (case oe of None \<Rightarrow> Inr st
            | Some e \<Rightarrow> Inl (ProcessingError (''Processing failed: '' @ exn_str e) e))),
       s2,
       tr1 @ [CompleteSession sid
               \<lparr>d_total_processed = total_processed st,
                d_sent = (if oe = None then new_sent st else 0),
                d_duplicates = duplicates_skipped st,
                d_failed = (if oe = None then failed_to_send st else total_processed st)\<rparr>
               (if oe = None then status else ''error'') cr])"
proof -
  from process_try_spec[OF t] have tot: "total_processed st = int (length all)" by simp
  show ?thesis
  proof (cases oe)
    case None
    let ?c = "complete_export_session cb sid
               \<lparr>d_total_processed = total_processed st, d_sent = new_sent st,
                d_duplicates = duplicates_skipped st, d_failed = failed_to_send st\<rparr> status s1"
    show ?thesis
      apply (rule exI[of _ "fst ?c"])
      apply (rule exI[of _ "snd ?c"])
      using assms None
      by (simp add: process_def complete_process_def call_defs invoke_pair split: sum.splits)
  next
    case (Some e)
    let ?c = "complete_export_session cb sid
               \<lparr>d_total_processed = total_processed st, d_sent = 0,
                d_duplicates = duplicates_skipped st, d_failed = total_processed st\<rparr> ''error'' s1"
    show ?thesis
      apply (rule exI[of _ "fst ?c"])
      apply (rule exI[of _ "snd ?c"])
      using assms Some tot
      by (auto simp: process_def complete_process_def call_defs invoke_pair Let_def
          split: sum.splits)
  qed
qed

lemma process_selected_spec:
  assumes h: "process_selected cb a ids (s, tr) = (r, s', tr')"
  shows "session_calls tr' = session_calls tr \<and>
    ((sends tr' = sends tr \<and> save_args tr' = save_args tr \<and>
      (\<forall>st. r = Inr st \<longrightarrow> failed_to_send st = 0 \<and>
         (\<exists>pend::pending list. total_processed st - duplicates_skipped st = int (length pend) \<and>
            new_sent st = (if dry_run a then int (length (filter (\<lambda>i. i \<in> hid ` set pend) ids))
                           else 0) \<and>
            (\<not> dry_run a \<longrightarrow> filter (\<lambda>i. i \<in> hid ` set pend) ids = [])))) \<or>
     (\<exists>batch (pend::pending list). \<not> dry_run a \<and> batch \<noteq> [] \<and>
        length batch = length (filter (\<lambda>i. i \<in> hid ` set pend) ids) \<and>
        ((\<exists>e. sends tr' = sends tr @ [(batch, Inl e)] \<and> r = Inl e \<and>
              save_args tr' = save_args tr) \<or>
         (\<exists>res st. sends tr' = sends tr @ [(batch, Inr res)] \<and> r = Inr st \<and>
              new_sent st = dict_get (sent res) 0 \<and>
              failed_to_send st = dict_get (failed res) 0 \<and>
              total_processed st - duplicates_skipped st = int (length pend) \<and>
              save_args tr' = save_args tr @
                map (\<lambda>c. (c, ''success''))
                  (if 0 < dict_get (sent res) 0 then py_prefix batch (dict_get (sent res) 0)
                   else [])))))"
proof (cases "fst (parse cb s)")
  case (Inl e)
  with h show ?thesis
    by (auto simp: process_selected_def call_defs invoke_pair log_simps)
next
  case all: (Inr all)
  let ?s1 = "snd (parse cb s)"
  let ?tr1 = "tr @ [Parse (Inr all)]"
  show ?thesis
  proof (cases "fst (parse cb ?s1)")
    case (Inl e)
    with h all show ?thesis
      by (auto simp: process_selected_def get_pending_highlights_def call_defs invoke_pair
          log_simps)
  next
    case cs: (Inr cs)
    let ?w2 = "(snd (parse cb ?s1), ?tr1 @ [Parse (Inr cs)])"
    obtain pr s2 tr2 where pl: "pending_loop cb 0 cs [] ?w2 = (pr, s2, tr2)"
      by (metis prod_cases3)
    note pll = pending_loop_log[OF pl]
    show ?thesis
    proof (cases pr)
      case (Inl e)
      with h all cs pl pll show ?thesis
        by (auto simp: process_selected_def get_pending_highlights_def call_defs invoke_pair
            log_simps)
    next
      case pend: (Inr pend)
      let ?sel = "map original_clipping (selected_highlights pend ids)"
      let ?stats = "\<lparr>total_processed = int (length all), new_sent = 0,
                      duplicates_skipped = int (length all) - int (length pend),
                      failed_to_send = 0\<rparr>"
      have len: "length ?sel = length (filter (\<lambda>i. i \<in> hid ` set pend) ids)"
        by (simp add: length_selected)
      show ?thesis
      proof (cases "?sel = [] \<or> dry_run a")
        case True
        with h all cs pl pend
        have r: "s' = s2" "tr' = tr2"
          "r = Inr (?stats\<lparr>new_sent := (if ?sel = [] then 0 else int (length ?sel))\<rparr>)"
          by (auto simp: process_selected_def get_pending_highlights_def call_defs invoke_pair
              Let_def ExportStats_def split: if_splits)
        have "(\<exists>pend'::pending list. total_processed ?stats - duplicates_skipped ?stats = int (length pend') \<and>
            (if ?sel = [] then 0 else int (length ?sel)) =
              (if dry_run a then int (length (filter (\<lambda>i. i \<in> hid ` set pend') ids)) else 0) \<and>
            (\<not> dry_run a \<longrightarrow> filter (\<lambda>i. i \<in> hid ` set pend') ids = []))"
          apply (rule exI[of _ pend])
          using True len by auto
        with r pll show ?thesis
          by (auto simp: log_simps)
      next
        case False
        let ?snd = "send_highlights cb ?sel s2"
        show ?thesis
        proof (cases "fst ?snd")
          case (Inl e)
          with h all cs pl pend False
          have r: "s' = snd ?snd" "tr' = tr2 @ [SendHighlights ?sel (Inl e)]" "r = Inl e"
            by (auto simp: process_selected_def get_pending_highlights_def call_defs invoke_pair
              Let_def ExportStats_def split: if_splits)
          have "\<exists>batch (pend::pending list). \<not> dry_run a \<and> batch \<noteq> [] \<and>
              length batch = length (filter (\<lambda>i. i \<in> hid ` set pend) ids) \<and>
              (\<exists>e. sends tr' = sends tr @ [(batch, Inl e)] \<and> r = Inl e \<and>
              save_args tr' = save_args tr)"
            apply (rule exI[of _ ?sel])
            apply (rule exI[of _ pend])
            using False len r pll by (auto simp: log_simps)
          with r pll show ?thesis
            by (auto simp: log_simps)
        next
          case res: (Inr res)
          let ?k = "dict_get (sent res) 0"
          let ?w3 = "(snd ?snd, tr2 @ [SendHighlights ?sel (Inr res)])"
          let ?saved = "if 0 < ?k then py_prefix ?sel ?k else []"
          let ?st = "?stats\<lparr>new_sent := ?k, failed_to_send := dict_get (failed res) 0\<rparr>"
          have sv: "save_loop cb ?saved ?w3 = (s', tr')" and r: "r = Inr ?st"
            using h all cs pl pend False res
            by (auto simp: process_selected_def get_pending_highlights_def call_defs invoke_pair
              Let_def ExportStats_def save_exported_loop split: if_splits)
          note svl = save_loop_log[OF sv]
          have "\<exists>batch (pend::pending list). \<not> dry_run a \<and> batch \<noteq> [] \<and>
              length batch = length (filter (\<lambda>i. i \<in> hid ` set pend) ids) \<and>
              (\<exists>res st. sends tr' = sends tr @ [(batch, Inr res)] \<and> r = Inr st \<and>
              new_sent st = dict_get (sent res) 0 \<and>
              failed_to_send st = dict_get (failed res) 0 \<and>
              total_processed st - duplicates_skipped st = int (length pend) \<and>
              save_args tr' = save_args tr @
                map (\<lambda>c. (c, ''success''))
                  (if 0 < dict_get (sent res) 0 then py_prefix batch (dict_get (sent res) 0)
                   else []))"
            apply (rule exI[of _ ?sel])
            apply (rule exI[of _ pend])
            apply (intro conjI)
            using False len apply simp
            using False len apply simp
            using False len apply simp
            apply (rule exI[of _ res])
            apply (rule exI[of _ ?st])
            using r pll svl by (auto simp: log_simps)
          moreover have "session_calls tr' = session_calls tr"
            using pll svl by (auto simp: log_simps)
          ultimately show ?thesis by blast
        qed
      qed
    qed
  qed
qed

section \<open>The session of a run\<close>

text \<open>
  Claim C4, as the code has it. In a run of \<^verbatim>\<open>process\<close> outside preview mode whose
  \<^verbatim>\<open>start_export_session\<close> returned \<open>sid\<close>, \<^verbatim>\<open>complete_export_session\<close> is called exactly
  once, for \<open>sid\<close>, as the last call of the run. The status it records is \<^verbatim>\<open>"error"\<close> iff
  an exception left the \<^verbatim>\<open>try\<close> block, \<^verbatim>\<open>"partial"\<close> iff none did and the recorded failed
  count is positive, and \<^verbatim>\<open>"success"\<close> iff none did and the recorded failed count is not
  positive, which is a failed count of 0 when the sink reports no negative count. When the
  completion call returns, the run raises \<^verbatim>\<open>ProcessingError\<close> with cause \<open>e\<close> if an
  exception \<open>e\<close> left the \<^verbatim>\<open>try\<close> block, and returns the stats if none did. When the
  completion call itself raises, it is that exception that reaches the caller.
\<close>

theorem session_completed_once:
  assumes "\<not> dry_run a" and "fst (start_export_session cb (clippings_file a) s) = Inr sid"
  shows "\<exists>d st cr.
      session_calls (trace (process cb a (s, []))) =
        [StartSession (clippings_file a) (Inr sid), CompleteSession sid d st cr] \<and>
      last (trace (process cb a (s, []))) = CompleteSession sid d st cr \<and>
      (st = ''error'' \<longleftrightarrow> raised_in_try (trace (process cb a (s, []))) \<noteq> []) \<and>
      (st = ''partial'' \<longleftrightarrow> raised_in_try (trace (process cb a (s, []))) = [] \<and> 0 < d_failed d) \<and>
      ((\<forall>batch res. (batch, Inr res) \<in> set (sends (trace (process cb a (s, [])))) \<longrightarrow>
            0 \<le> dict_get (failed res) 0) \<longrightarrow>
       (st = ''success'' \<longleftrightarrow> raised_in_try (trace (process cb a (s, []))) = [] \<and> d_failed d = 0)) \<and>
      (raised_in_try (trace (process cb a (s, []))) \<noteq> [] \<and> cr = Inr () \<longrightarrow>
         (\<exists>e. raised_in_try (trace (process cb a (s, []))) = [e] \<and>
              fst (process cb a (s, [])) =
                Inl (ProcessingError (''Processing failed: '' @ exn_str e) e))) \<and>
      (raised_in_try (trace (process cb a (s, []))) = [] \<and> cr = Inr () \<longrightarrow>
         (\<exists>stats. fst (process cb a (s, [])) = Inr stats \<and> failed_to_send stats = d_failed d)) \<and>
      (st = ''success'' \<longleftrightarrow> raised_in_try (trace (process cb a (s, []))) = [] \<and> d_failed d \<le> 0) \<and>
      (\<forall>e'. cr = Inl e' \<longrightarrow> fst (process cb a (s, [])) = Inl e')"
proof -
  let ?f = "clippings_file a"
  obtain oe st status all s1 tr1 where
    t: "process_try cb a ExportStats
          (snd (start_export_session cb ?f s), [StartSession ?f (Inr sid)]) =
        (oe, st, status, all, s1, tr1)"
    by (metis prod_cases5)
  note ts = process_try_spec[OF t]
  from process_live[OF assms t] obtain cr s2 where
    p: "process cb a (s, []) =
      ((case cr of Inl e' \<Rightarrow> Inl e'
        | Inr u \<Rightarrow> (case oe of None \<Rightarrow> Inr st
            | Some e \<Rightarrow> Inl (ProcessingError (''Processing failed: '' @ exn_str e) e))),
       s2,
       tr1 @ [CompleteSession sid
               \<lparr>d_total_processed = total_processed st,
                d_sent = (if oe = None then new_sent st else 0),
                d_duplicates = duplicates_skipped st,
                d_failed = (if oe = None then failed_to_send st else total_processed st)\<rparr>
               (if oe = None then status else ''error'') cr])"
    by blast
  let ?d = "\<lparr>d_total_processed = total_processed st,
                d_sent = (if oe = None then new_sent st else 0),
                d_duplicates = duplicates_skipped st,
                d_failed = (if oe = None then failed_to_send st else total_processed st)\<rparr>"
  let ?st = "if oe = None then status else ''error''"
  show ?thesis
    apply (rule exI[of _ ?d])
    apply (rule exI[of _ ?st])
    apply (rule exI[of _ cr])
    unfolding p trace_simp
    using ts
    by (cases oe) (auto simp: log_simps split: if_splits)
qed

theorem session_completed_once_witness:
  "\<not> dry_run live \<and>
   fst (start_export_session
          (ledger_collab [clip ''T'' ''c'', clip ''U'' ''d''] (accept_first 1) (\<lambda>c. True))
          (clippings_file live) empty_store) = Inr 1 \<and>
   session_calls (trace (process
          (ledger_collab [clip ''T'' ''c'', clip ''U'' ''d''] (accept_first 1) (\<lambda>c. True)) live
          (empty_store, []))) =
     [StartSession ''My Clippings.txt'' (Inr 1),
      CompleteSession 1
        \<lparr>d_total_processed = 2, d_sent = 1, d_duplicates = 0, d_failed = 1\<rparr> ''partial''
        (Inr ())] \<and>
   raised_in_try (trace (process
          (ledger_collab [clip ''T'' ''c'', clip ''U'' ''d''] (accept_first 1) (\<lambda>c. True)) live
          (empty_store, []))) = [] \<and>
   session_calls (trace (process
          (ledger_collab [clip ''T'' ''c'', clip ''U'' ''d''] sink_down (\<lambda>c. True)) live
          (empty_store, []))) =
     [StartSession ''My Clippings.txt'' (Inr 1),
      CompleteSession 1
        \<lparr>d_total_processed = 2, d_sent = 0, d_duplicates = 0, d_failed = 2\<rparr> ''error''
        (Inr ())] \<and>
   fst (process (ledger_collab [clip ''T'' ''c'', clip ''U'' ''d''] sink_down (\<lambda>c. True)) live
          (empty_store, [])) =
     Inl (ProcessingError ''Processing failed: connection refused''
            (DeliveryError ''connection refused'')) \<and>
   fst (process
          ((ledger_collab [clip ''T'' ''c'', clip ''U'' ''d''] sink_down (\<lambda>c. True))
             \<lparr>complete_export_session :=
                (\<lambda>sid d st s. (Inl (StorageError ''database is locked''), s))\<rparr>)
          live (empty_store, [])) = Inl (StorageError ''database is locked'')"
proof -
  have h4: "fst (start_export_session
          ((ledger_collab [clip ''T'' ''c'', clip ''U'' ''d''] sink_down (\<lambda>c. True))
             \<lparr>complete_export_session :=
                (\<lambda>sid d st s. (Inl (StorageError ''database is locked''), s))\<rparr>)
          (clippings_file live) empty_store) = Inr 1"
    by (simp add: env_defs)
  have h1: "\<not> dry_run live"
    by (simp add: live_def)
  have h2: "fst (start_export_session
          (ledger_collab [clip ''T'' ''c'', clip ''U'' ''d''] (accept_first 1) (\<lambda>c. True))
          (clippings_file live) empty_store) = Inr 1"
    by (simp add: env_defs)
  have h3: "fst (start_export_session
          (ledger_collab [clip ''T'' ''c'', clip ''U'' ''d''] sink_down (\<lambda>c. True))
          (clippings_file live) empty_store) = Inr 1"
    by (simp add: env_defs)
  from session_completed_once[OF h1 h2] session_completed_once[OF h1 h3]
    session_completed_once[OF h1 h4] h1 h2
  show ?thesis
    by (simp add: run_defs env_defs call_defs invoke_pair log_simps)
qed

text \<open>
  Against C4 as it is worded: the sink's transport fails and then the completion call
  fails too. The session call is made once, with status \<^verbatim>\<open>"error"\<close>, but the caller gets
  the exception of the completion call, not a \<^verbatim>\<open>ProcessingError\<close>.
\<close>

theorem completion_raises_counterexample:
  "raised_in_try (trace (process
       ((ledger_collab [clip ''T'' ''c'', clip ''U'' ''d''] sink_down (\<lambda>c. True))
          \<lparr>complete_export_session :=
             (\<lambda>sid d st s. (Inl (StorageError ''database is locked''), s))\<rparr>)
       live (empty_store, []))) = [DeliveryError ''connection refused''] \<and>
   session_calls (trace (process
       ((ledger_collab [clip ''T'' ''c'', clip ''U'' ''d''] sink_down (\<lambda>c. True))
          \<lparr>complete_export_session :=
             (\<lambda>sid d st s. (Inl (StorageError ''database is locked''), s))\<rparr>)
       live (empty_store, []))) =
     [StartSession ''My Clippings.txt'' (Inr 1),
      CompleteSession 1
        \<lparr>d_total_processed = 2, d_sent = 0, d_duplicates = 0, d_failed = 2\<rparr> ''error''
        (Inl (StorageError ''database is locked''))] \<and>
   fst (process
       ((ledger_collab [clip ''T'' ''c'', clip ''U'' ''d''] sink_down (\<lambda>c. True))
          \<lparr>complete_export_session :=
             (\<lambda>sid d st s. (Inl (StorageError ''database is locked''), s))\<rparr>)
       live (empty_store, [])) = Inl (StorageError ''database is locked'')"
  by (simp add: run_defs env_defs call_defs invoke_pair Let_def log_simps)

section \<open>Partial failures\<close>













section \<open>The invariant of the counters\<close>

lemma filter_ids_le:
  assumes d: "distinct ids"
  shows "length (filter (\<lambda>i. i \<in> hid ` set pend) ids) \<le> length (pend :: pending list)"
proof -
  have "length (filter (\<lambda>i. i \<in> hid ` set pend) ids) =
      card (set (filter (\<lambda>i. i \<in> hid ` set pend) ids))"
    by (rule distinct_card[symmetric]) (simp add: d)
  also have "\<dots> \<le> card (hid ` set pend)"
    by (rule card_mono) auto
  also have "\<dots> \<le> card (set pend)"
    by (rule card_image_le) simp
  also have "\<dots> \<le> length pend"
    by (rule card_length)
  finally show ?thesis .
qed

lemma process_stats:
  assumes sink: "\<forall>batch res. (batch, Inr res) \<in> set (sends (trace (process cb a (s, [])))) \<longrightarrow>
      dict_get (sent res) 0 + dict_get (failed res) 0 \<le> int (length batch)"
  shows "(\<forall>st. fst (process cb a (s, [])) = Inr st \<longrightarrow> stats_inv st) \<and>
     (\<forall>sid d status cr.
        CompleteSession sid d status cr \<in> set (session_calls (trace (process cb a (s, [])))) \<longrightarrow>
          (status \<noteq> ''error'' \<longrightarrow> dict_inv d) \<and>
          (status = ''error'' \<longrightarrow> d_sent d = 0 \<and> d_failed d = d_total_processed d \<and>
             (dict_inv d \<longleftrightarrow> d_duplicates d = 0)))"
proof (cases "dry_run a")
  case True
  obtain oe st status all s1 tr1 where
    t: "process_try cb a ExportStats (s, []) = (oe, st, status, all, s1, tr1)"
    by (metis prod_cases5)
  from process_try_spec[OF t] True show ?thesis
    unfolding process_dry[OF True t] trace_simp
    by (auto simp: log_simps stats_inv_def split: option.splits)
next
  case False
  let ?f = "clippings_file a"
  show ?thesis
  proof (cases "fst (start_export_session cb ?f s)")
    case (Inl e)
    show ?thesis
      unfolding process_start_fails[OF False Inl] trace_simp
      by (simp add: log_simps)
  next
    case (Inr sid)
    obtain oe st status all s1 tr1 where
      t: "process_try cb a ExportStats
          (snd (start_export_session cb ?f s), [StartSession ?f (Inr sid)]) =
        (oe, st, status, all, s1, tr1)"
      by (metis prod_cases5)
    from process_live[OF False Inr t] obtain cr s2 where
      p: "process cb a (s, []) =
      ((case cr of Inl e' \<Rightarrow> Inl e'
        | Inr u \<Rightarrow> (case oe of None \<Rightarrow> Inr st
            | Some e \<Rightarrow> Inl (ProcessingError (''Processing failed: '' @ exn_str e) e))),
       s2,
       tr1 @ [CompleteSession sid
               \<lparr>d_total_processed = total_processed st,
                d_sent = (if oe = None then new_sent st else 0),
                d_duplicates = duplicates_skipped st,
                d_failed = (if oe = None then failed_to_send st else total_processed st)\<rparr>
               (if oe = None then status else ''error'') cr])"
      by blast
    note ts = process_try_spec[OF t]
    from sink have sink': "\<forall>batch res. (batch, Inr res) \<in> set (sends tr1) \<longrightarrow>
      dict_get (sent res) 0 + dict_get (failed res) 0 \<le> int (length batch)"
      unfolding p trace_simp by (simp add: log_simps)
    show ?thesis
    proof (cases oe)
      case None
      with ts sink' have inv: "stats_inv st" "status \<noteq> ''error''"
        by (auto simp: log_simps stats_inv_def split: if_splits)
      with ts None show ?thesis
        unfolding p trace_simp
        by (auto simp: log_simps stats_inv_def dict_inv_def split: sum.splits)
    next
      case (Some e)
      with ts show ?thesis
        unfolding p trace_simp
        by (auto simp: log_simps dict_inv_def split: sum.splits)
    qed
  qed
qed



lemma selected_stats:
  assumes sink: "\<forall>batch res.
      (batch, Inr res) \<in> set (sends (trace (process_selected cb a ids (s, [])))) \<longrightarrow>
      dict_get (sent res) 0 + dict_get (failed res) 0 \<le> int (length batch)"
    and d: "distinct ids"
  shows "\<forall>st. fst (process_selected cb a ids (s, [])) = Inr st \<longrightarrow> stats_inv st"
proof (intro allI impI)
  fix st
  assume ok: "fst (process_selected cb a ids (s, [])) = Inr st"
  obtain r s' tr where p: "process_selected cb a ids (s, []) = (r, s', tr)"
    by (metis prod_cases3)
  from ok p have r: "r = Inr st" by simp
  from sink have sink': "\<And>batch res. (batch, Inr res) \<in> set (sends tr) \<Longrightarrow>
      dict_get (sent res) 0 + dict_get (failed res) 0 \<le> int (length batch)"
    unfolding p trace_simp by blast
  from process_selected_spec[OF p]
  consider
    (quiet) pend :: "pending list" where "failed_to_send st = 0"
      "total_processed st - duplicates_skipped st = int (length pend)"
      "new_sent st = (if dry_run a then int (length (filter (\<lambda>i. i \<in> hid ` set pend) ids))
                      else 0)"
  | (sent) batch res and pend :: "pending list" where
      "length batch = length (filter (\<lambda>i. i \<in> hid ` set pend) ids)"
      "sends tr = [(batch, Inr res)]" "new_sent st = dict_get (sent res) 0"
      "failed_to_send st = dict_get (failed res) 0"
      "total_processed st - duplicates_skipped st = int (length pend)"
    unfolding r by (auto simp: log_simps)
  then show "stats_inv st"
  proof cases
    case quiet
    with filter_ids_le[OF d, of pend] show ?thesis
      by (auto simp: stats_inv_def)
  next
    case sent
    from sink'[of batch res] sent(2)
    have "dict_get (sent res) 0 + dict_get (failed res) 0 \<le> int (length batch)"
      by simp
    with sent filter_ids_le[OF d, of pend] show ?thesis
      by (auto simp: stats_inv_def)
  qed
qed

text \<open>
  Claim C6, as the code has it. Take a run in which the sink reports no more records than it
  was sent (\<open>sent + failed \<le> length batch\<close>). The stats that \<^verbatim>\<open>process\<close> returns satisfy
  \<open>new_sent + failed_to_send \<le> total_processed - duplicates_skipped\<close>, and so do the stats
  it records into the session with status \<^verbatim>\<open>"success"\<close> or \<^verbatim>\<open>"partial"\<close>. On the error
  path the session records \<open>sent = 0\<close> and \<open>failed = total_processed\<close> beside the duplicates
  counted so far, which satisfies the inequality only when no duplicate was counted. The
  stats that \<^verbatim>\<open>process_selected\<close> returns satisfy it when the selected ids are pairwise
  distinct.
\<close>

theorem stats_invariant:
  "((\<forall>batch res. (batch, Inr res) \<in> set (sends (trace (process cb a (s, [])))) \<longrightarrow>
        dict_get (sent res) 0 + dict_get (failed res) 0 \<le> int (length batch)) \<longrightarrow>
    (\<forall>st. fst (process cb a (s, [])) = Inr st \<longrightarrow> stats_inv st) \<and>
    (\<forall>sid d status cr.
        CompleteSession sid d status cr \<in> set (session_calls (trace (process cb a (s, [])))) \<longrightarrow>
          (status \<noteq> ''error'' \<longrightarrow> dict_inv d) \<and>
          (status = ''error'' \<longrightarrow> d_sent d = 0 \<and> d_failed d = d_total_processed d \<and>
             (dict_inv d \<longleftrightarrow> d_duplicates d = 0)))) \<and>
   ((\<forall>batch res.
        (batch, Inr res) \<in> set (sends (trace (process_selected cb a ids (s, [])))) \<longrightarrow>
        dict_get (sent res) 0 + dict_get (failed res) 0 \<le> int (length batch)) \<and>
    distinct ids \<longrightarrow>
    (\<forall>st. fst (process_selected cb a ids (s, [])) = Inr st \<longrightarrow> stats_inv st))"
  using process_stats[of cb a s] selected_stats[of cb a ids s] by blast

theorem stats_invariant_witness:
  "fst (process (ledger_collab [clip ''T'' ''c'', clip ''U'' ''d''] (accept_first 1) (\<lambda>c. True))
          live (store_with [clip ''T'' ''c''], [])) =
     Inr \<lparr>total_processed = 2, new_sent = 1, duplicates_skipped = 1, failed_to_send = 0\<rparr> \<and>
   stats_inv \<lparr>total_processed = 2, new_sent = 1, duplicates_skipped = 1, failed_to_send = 0\<rparr> \<and>
   session_calls (trace (process
          (ledger_collab [clip ''T'' ''c'', clip ''U'' ''d''] (accept_first 1) (\<lambda>c. True))
          live (store_with [clip ''T'' ''c''], []))) =
     [StartSession ''My Clippings.txt'' (Inr 1),
      CompleteSession 1
        \<lparr>d_total_processed = 2, d_sent = 1, d_duplicates = 1, d_failed = 0\<rparr> ''success''
        (Inr ())] \<and>
   dict_inv \<lparr>d_total_processed = 2, d_sent = 1, d_duplicates = 1, d_failed = 0\<rparr> \<and>
   distinct [2, 3 :: int] \<and>
   fst (process_selected
          (ledger_collab [clip ''T'' ''c'', clip ''U'' ''d'', clip ''V'' ''e''] (accept_first 1)
             (\<lambda>c. True))
          live [2, 3] (store_with [clip ''T'' ''c''], [])) =
     Inr \<lparr>total_processed = 3, new_sent = 1, duplicates_skipped = 1, failed_to_send = 1\<rparr> \<and>
   stats_inv \<lparr>total_processed = 3, new_sent = 1, duplicates_skipped = 1, failed_to_send = 1\<rparr> \<and>
   session_calls (trace (process
          (ledger_collab [clip ''T'' ''c'', clip ''U'' ''d''] sink_down (\<lambda>c. True))
          live (empty_store, []))) =
     [StartSession ''My Clippings.txt'' (Inr 1),
      CompleteSession 1
        \<lparr>d_total_processed = 2, d_sent = 0, d_duplicates = 0, d_failed = 2\<rparr> ''error''
        (Inr ())] \<and>
   dict_inv \<lparr>d_total_processed = 2, d_sent = 0, d_duplicates = 0, d_failed = 2\<rparr>"
proof -
  let ?cb3 = "ledger_collab [clip ''T'' ''c'', clip ''U'' ''d''] sink_down (\<lambda>c. True)"
  have t3: "session_calls (trace (process ?cb3 live (empty_store, []))) =
     [StartSession ''My Clippings.txt'' (Inr 1),
      CompleteSession 1
        \<lparr>d_total_processed = 2, d_sent = 0, d_duplicates = 0, d_failed = 2\<rparr> ''error''
        (Inr ())]"
    by (simp add: run_defs env_defs call_defs invoke_pair Let_def log_simps)
  have s3: "sends (trace (process ?cb3 live (empty_store, []))) =
      [([clip ''T'' ''c'', clip ''U'' ''d''], Inl (DeliveryError ''connection refused''))]"
    by (simp add: run_defs env_defs call_defs invoke_pair Let_def log_simps)
  have h4: "\<forall>batch res. (batch, Inr res) \<in> set (sends (trace (process ?cb3 live (empty_store, [])))) \<longrightarrow>
        dict_get (sent res) 0 + dict_get (failed res) 0 \<le> int (length batch)"
    unfolding s3 by simp
  from stats_invariant[of ?cb3 live empty_store "[]"] h4 t3
  have c3: "dict_inv \<lparr>d_total_processed = 2, d_sent = 0, d_duplicates = 0, d_failed = 2\<rparr>"
    by simp
  let ?cb1 = "ledger_collab [clip ''T'' ''c'', clip ''U'' ''d''] (accept_first 1) (\<lambda>c. True)"
  let ?cb2 = "ledger_collab [clip ''T'' ''c'', clip ''U'' ''d'', clip ''V'' ''e'']
                (accept_first 1) (\<lambda>c. True)"
  let ?s = "store_with [clip ''T'' ''c'']"
  have r1: "fst (process ?cb1 live (?s, [])) =
      Inr \<lparr>total_processed = 2, new_sent = 1, duplicates_skipped = 1, failed_to_send = 0\<rparr>"
    by (simp add: run_defs env_defs call_defs invoke_pair Let_def)
  have t1: "session_calls (trace (process ?cb1 live (?s, []))) =
     [StartSession ''My Clippings.txt'' (Inr 1),
      CompleteSession 1
        \<lparr>d_total_processed = 2, d_sent = 1, d_duplicates = 1, d_failed = 0\<rparr> ''success''
        (Inr ())]"
    by (simp add: run_defs env_defs call_defs invoke_pair Let_def log_simps)
  have s1: "sends (trace (process ?cb1 live (?s, []))) =
      [([clip ''U'' ''d''], Inr \<lparr>sent = Some 1, failed = Some 0\<rparr>)]"
    by (simp add: run_defs env_defs call_defs invoke_pair Let_def log_simps)
  have r2: "fst (process_selected ?cb2 live [2, 3] (?s, [])) =
      Inr \<lparr>total_processed = 3, new_sent = 1, duplicates_skipped = 1, failed_to_send = 1\<rparr>"
    by (simp add: run_defs env_defs call_defs invoke_pair Let_def)
  have s2: "sends (trace (process_selected ?cb2 live [2, 3] (?s, []))) =
      [([clip ''U'' ''d'', clip ''V'' ''e''], Inr \<lparr>sent = Some 1, failed = Some 1\<rparr>)]"
    by (simp add: run_defs env_defs call_defs invoke_pair Let_def log_simps)
  have h1: "\<forall>batch res. (batch, Inr res) \<in> set (sends (trace (process ?cb1 live (?s, [])))) \<longrightarrow>
        dict_get (sent res) 0 + dict_get (failed res) 0 \<le> int (length batch)"
    unfolding s1 by (simp add: dict_get_def)
  have h2: "\<forall>batch res.
        (batch, Inr res) \<in> set (sends (trace (process_selected ?cb2 live [2, 3] (?s, [])))) \<longrightarrow>
        dict_get (sent res) 0 + dict_get (failed res) 0 \<le> int (length batch)"
    unfolding s2 by (simp add: dict_get_def)
  have h3: "distinct [2, 3 :: int]" by simp
  from stats_invariant[of ?cb1 live ?s "[]"] h1 r1 t1
  have c1: "stats_inv \<lparr>total_processed = 2, new_sent = 1, duplicates_skipped = 1,
                        failed_to_send = 0\<rparr> \<and>
            dict_inv \<lparr>d_total_processed = 2, d_sent = 1, d_duplicates = 1, d_failed = 0\<rparr>"
    by simp
  from stats_invariant[of ?cb2 live ?s "[2, 3]"] h2 h3 r2
  have c2: "stats_inv \<lparr>total_processed = 3, new_sent = 1, duplicates_skipped = 1,
                        failed_to_send = 1\<rparr>"
    by simp
  from r1 t1 r2 c1 c2 h3 t3 c3 show ?thesis by simp
qed

text \<open>
  Against C6 as it is worded: one of two records is already in the store and the sink's
  transport fails; the session is closed with \<open>sent = 0\<close>, \<open>duplicates = 1\<close> and
  \<open>failed = 2\<close> out of \<open>total_processed = 2\<close>.
\<close>

theorem error_session_stats_counterexample:
  "session_calls (trace (process
       (ledger_collab [clip ''T'' ''c'', clip ''U'' ''d''] sink_down (\<lambda>c. True))
       live (store_with [clip ''T'' ''c''], []))) =
     [StartSession ''My Clippings.txt'' (Inr 1),
      CompleteSession 1
        \<lparr>d_total_processed = 2, d_sent = 0, d_duplicates = 1, d_failed = 2\<rparr> ''error''
        (Inr ())] \<and>
   \<not> dict_inv \<lparr>d_total_processed = 2, d_sent = 0, d_duplicates = 1, d_failed = 2\<rparr>"
  by (simp add: run_defs env_defs call_defs invoke_pair Let_def log_simps dict_inv_def)

section \<open>Validation\<close>










section \<open>The pending view\<close>

lemma ledger_collab_sel:
  "file_exists (ledger_collab src sink ok) p s = True"
  "validate_token (ledger_collab src sink ok) s = (Inr True, s)"
  "parse (ledger_collab src sink ok) s = (Inr src, s)"
  "highlight_exists (ledger_collab src sink ok) t a c s = (Inr (store_exists s t a c), s)"
  "save_highlight (ledger_collab src sink ok) r st s =
     (if ok r then (Inr (), store_save r st s) else (Inl (StorageError ''save failed''), s))"
  "send_highlights (ledger_collab src sink ok) batch s = (sink batch, s)"
  "start_export_session (ledger_collab src sink ok) f s =
     (Inr (fst (store_start_session f s)), snd (store_start_session f s))"
  "complete_export_session (ledger_collab src sink ok) sid d st s =
     (Inr (), store_complete_session sid d st s)"
  by (simp_all add: ledger_collab_def split: prod.split)

lemma ledger_pending_loop:
  "pending_loop (ledger_collab src sink ok) idx cs acc (s, tr) =
     (Inr (acc @ map (\<lambda>(i, c). highlight_dict i c)
                   (filter (\<lambda>(i, c). \<not> in_store s c) (enumerate idx cs))),
      s,
      tr @ map (\<lambda>c. HighlightExists (title c) (py_or (author c) []) (content c)
                      (Inr (in_store s c))) cs)"
proof (induction cs arbitrary: idx acc tr)
  case Nil
  show ?case by simp
next
  case (Cons c cs)
  show ?case
    by (simp add: Cons.IH call_defs invoke_pair ledger_collab_sel in_store_def)
qed

lemma filter_enumerate_snd:
  "map snd (filter (\<lambda>(i, c). P c) (enumerate n xs)) = filter P xs"
  by (induction xs arbitrary: n) auto

text \<open>
  Claim C7, as the code has it. Against a store that answers from its ledger,
  \<^verbatim>\<open>get_pending_highlights\<close> returns one descriptor for each parsed record that is not in
  the store, in parse order, and the \<^verbatim>\<open>id\<close> of a descriptor is the 1-based position of its
  record among all the parsed records (\<^verbatim>\<open>enumerate\<close> runs over the parsed list), not its
  position in the pending view.
\<close>

theorem pending_view_ids:
  "fst (get_pending_highlights (ledger_collab src sink ok) (s, [])) =
     Inr (map (\<lambda>(i, c). highlight_dict i c)
            (filter (\<lambda>(i, c). \<not> in_store s c) (enumerate 0 src))) \<and>
   map original_clipping
     (projr (fst (get_pending_highlights (ledger_collab src sink ok) (s, [])))) =
     filter (\<lambda>c. \<not> in_store s c) src \<and>
   map hid (projr (fst (get_pending_highlights (ledger_collab src sink ok) (s, [])))) =
     map (\<lambda>(i, c). int i + 1) (filter (\<lambda>(i, c). \<not> in_store s c) (enumerate 0 src))"
proof -
  have g: "fst (get_pending_highlights (ledger_collab src sink ok) (s, [])) =
     Inr (map (\<lambda>(i, c). highlight_dict i c)
            (filter (\<lambda>(i, c). \<not> in_store s c) (enumerate 0 src)))"
    by (simp add: get_pending_highlights_def call_defs invoke_pair ledger_pending_loop
        ledger_collab_sel)
  have oc: "original_clipping \<circ> (\<lambda>(i, c). highlight_dict i c) = snd"
    by (auto simp: highlight_dict_def)
  have hi: "hid \<circ> (\<lambda>(i, c). highlight_dict i c) = (\<lambda>(i, c). int i + 1)"
    by (auto simp: highlight_dict_def)
  show ?thesis
    unfolding g by (simp add: oc hi filter_enumerate_snd)
qed

text \<open>
  Against C7 as it is worded: of three parsed records the first is in the store; the two
  descriptors returned have the ids 2 and 3.
\<close>

theorem pending_view_ids_counterexample:
  "map hid (projr (fst (get_pending_highlights
       (ledger_collab [clip ''T'' ''c'', clip ''U'' ''d'', clip ''V'' ''e''] accept_all (\<lambda>c. True))
       (store_with [clip ''T'' ''c''], [])))) = [2, 3]"
  by (simp add: run_defs env_defs call_defs invoke_pair)

section \<open>Records with empty content\<close>

text \<open>
  Claim C8, on an input where the code departs from it. The source holds one record with
  empty content and the store is empty. \<^verbatim>\<open>get_pending_highlights\<close> puts the record into the
  pending view (under id 1), and \<^verbatim>\<open>process_selected\<close> with that id queries the store for
  it, sends it, saves it and counts it in \<^verbatim>\<open>new_sent\<close>.
\<close>

theorem empty_content_in_selective_export:
  "fst (get_pending_highlights (ledger_collab [clip ''T'' []] accept_all (\<lambda>c. True))
          (empty_store, [])) = Inr [highlight_dict 0 (clip ''T'' [])] \<and>
   process_selected (ledger_collab [clip ''T'' []] accept_all (\<lambda>c. True)) live [1]
       (empty_store, []) =
     (Inr \<lparr>total_processed = 1, new_sent = 1, duplicates_skipped = 0, failed_to_send = 0\<rparr>,
      store_with [clip ''T'' []],
      [Parse (Inr [clip ''T'' []]), Parse (Inr [clip ''T'' []]),
       HighlightExists ''T'' ''Author'' [] (Inr False),
       SendHighlights [clip ''T'' []] (Inr \<lparr>sent = Some 1, failed = Some 0\<rparr>),
       SaveHighlight (clip ''T'' []) ''success'' (Inr ())])"
  by (simp add: run_defs env_defs call_defs invoke_pair Let_def)

section \<open>Runs against the ledger store\<close>

lemma ledger_filter_loop:
  "filter_duplicates_loop (ledger_collab src sink ok) cs new dup (s, tr) =
     (Inr (new @ filter (\<lambda>c. content c \<noteq> [] \<and> \<not> in_store s c) cs,
           dup + int (length (filter (\<lambda>c. content c \<noteq> [] \<and> in_store s c) cs))),
      s,
      tr @ map (\<lambda>c. HighlightExists (title c) (py_or (author c) []) (content c)
                      (Inr (in_store s c)))
             (filter (\<lambda>c. content c \<noteq> []) cs))"
proof (induction cs arbitrary: new dup tr)
  case Nil
  show ?case by simp
next
  case (Cons c cs)
  show ?case
    by (simp add: Cons.IH call_defs invoke_pair ledger_collab_sel in_store_def)
qed

lemma ledger_save_loop:
  "save_loop (ledger_collab src sink ok) cs (s, tr) =
     (s\<lparr>ledger := ledger s @ map (\<lambda>c. (c, ''success'')) (filter ok cs)\<rparr>,
      tr @ map (\<lambda>c. SaveHighlight c ''success''
                      (if ok c then Inr () else Inl (StorageError ''save failed''))) cs)"
proof (induction cs arbitrary: s tr)
  case Nil
  show ?case by simp
next
  case (Cons c cs)
  show ?case
    by (simp add: Cons.IH call_defs invoke_pair ledger_collab_sel store_save_def)
qed

lemma save_args_map [simp]:
  "save_args (map (\<lambda>c. SaveHighlight c st (f c)) cs) = map (\<lambda>c. (c, st)) cs"
  "save_args (map (\<lambda>c. HighlightExists (t c) (au c) (co c) (g c)) cs) = []"
  by (induction cs) (simp_all add: log_simps)

lemma in_store_ledger: "ledger s' = ledger s \<Longrightarrow> in_store s' c = in_store s c"
  by (simp add: in_store_def store_exists_def)

lemma ledger_session [simp]:
  "ledger (snd (store_start_session f s)) = ledger s"
  "ledger (store_complete_session sid d st s) = ledger s"
  by (simp_all add: store_start_session_def store_complete_session_def Let_def)

lemma in_store_session [simp]:
  "in_store (snd (store_start_session f s)) = in_store s"
  "in_store (store_complete_session sid d st s) = in_store s"
  by (rule ext, rule in_store_ledger, simp)+

text \<open>The records a run of \<open>process\<close> passes to \<open>save\<close>, against the ledger store.\<close>

lemma ledger_process:
  "save_args (trace (process (ledger_collab src sink ok) a (s, []))) =
     map (\<lambda>c. (c, ''success''))
       (let new = filter (\<lambda>c. content c \<noteq> [] \<and> \<not> in_store s c) src
        in if dry_run a \<or> new = [] then []
           else case sink new of Inl e \<Rightarrow> []
                | Inr res \<Rightarrow> py_prefix new (dict_get (sent res) 0)) \<and>
   ledger (final_state (process (ledger_collab src sink ok) a (s, []))) =
     ledger s @ map (\<lambda>c. (c, ''success''))
       (filter ok
         (let new = filter (\<lambda>c. content c \<noteq> [] \<and> \<not> in_store s c) src
          in if dry_run a \<or> new = [] then []
             else case sink new of Inl e \<Rightarrow> []
                  | Inr res \<Rightarrow> py_prefix new (dict_get (sent res) 0)))"
  by (simp add: process_def process_try_def process_clippings_def filter_duplicates_def
      complete_process_def handle_real_export_def handle_dry_run_export_def save_exported_loop
      call_defs invoke_pair ledger_collab_sel ledger_filter_loop ledger_save_loop Let_def
      trace_def final_state_def log_simps split: sum.splits)


lemma ledger_process_no_new:
  assumes "filter (\<lambda>c. content c \<noteq> [] \<and> \<not> in_store s c) src = []"
  shows "fst (process (ledger_collab src sink ok) a (s, [])) =
     Inr \<lparr>total_processed = int (length src), new_sent = 0,
          duplicates_skipped = int (length (filter (\<lambda>c. content c \<noteq> [] \<and> in_store s c) src)),
          failed_to_send = 0\<rparr>"
  using assms
  by (simp add: process_def process_try_def process_clippings_def filter_duplicates_def
      complete_process_def call_defs invoke_pair ledger_collab_sel ledger_filter_loop Let_def
      ExportStats_def)

lemma in_store_iff:
  "in_store s c \<longleftrightarrow> (dedup_key c, ''success'') \<in> (\<lambda>row. (dedup_key (fst row), snd row)) ` set (ledger s)"
  by (simp add: in_store_def store_exists_def dedup_key_def)

lemma py_prefix_all: "py_prefix xs (int (length xs)) = xs"
  by (simp add: py_prefix_def)

text \<open>
  Claim C9. Run \<^verbatim>\<open>process\<close> outside preview mode against a store that answers \<^verbatim>\<open>exists\<close>
  from its ledger, with a sink that accepts every record and a \<^verbatim>\<open>save\<close> that always
  succeeds; then run it again on the same source (whatever the sink and \<^verbatim>\<open>save\<close> would do
  this time). The second run returns \<^verbatim>\<open>new_sent = 0\<close>, \<^verbatim>\<open>failed_to_send = 0\<close> and
  \<^verbatim>\<open>duplicates_skipped\<close> equal to \<^verbatim>\<open>total_processed\<close> minus the number of records with empty
  content.
\<close>

theorem second_run_sends_nothing:
  assumes "\<not> dry_run a"
  shows "fst (process (ledger_collab src sink ok) a
            (final_state (process (ledger_collab src accept_all (\<lambda>c. True)) a (s, [])), [])) =
     Inr \<lparr>total_processed = int (length src), new_sent = 0,
          duplicates_skipped = int (length src) - int (length (filter (\<lambda>c. content c = []) src)),
          failed_to_send = 0\<rparr>"
proof -
  let ?new = "filter (\<lambda>c. content c \<noteq> [] \<and> \<not> in_store s c) src"
  let ?s1 = "final_state (process (ledger_collab src accept_all (\<lambda>c. True)) a (s, []))"
  have l1: "ledger ?s1 = ledger s @ map (\<lambda>c. (c, ''success'')) ?new"
    using assms ledger_process[of src accept_all "\<lambda>c. True" a s]
    by (auto simp: accept_all_def dict_get_def py_prefix_all Let_def)
  have known: "in_store ?s1 c" if "c \<in> set src" "content c \<noteq> []" for c
  proof (cases "in_store s c")
    case True
    then show ?thesis by (auto simp: in_store_iff l1)
  next
    case False
    with that have "c \<in> set ?new" by simp
    then show ?thesis by (force simp: in_store_iff l1)
  qed
  then have none: "filter (\<lambda>c. content c \<noteq> [] \<and> \<not> in_store ?s1 c) src = []"
    by (auto simp: filter_empty_conv)
  from known have "filter (\<lambda>c. content c \<noteq> [] \<and> in_store ?s1 c) src =
      filter (\<lambda>c. content c \<noteq> []) src"
    by (auto intro: filter_cong)
  moreover have "length src = length (filter (\<lambda>c. content c = []) src) +
      length (filter (\<lambda>c. content c \<noteq> []) src)"
    using sum_length_filter_compl[of "\<lambda>c. content c = []" src] by simp
  ultimately have "int (length (filter (\<lambda>c. content c \<noteq> [] \<and> in_store ?s1 c) src)) =
      int (length src) - int (length (filter (\<lambda>c. content c = []) src))"
    by simp
  with ledger_process_no_new[OF none, of sink ok a] show ?thesis by simp
qed

theorem second_run_sends_nothing_witness:
  "\<not> dry_run live \<and>
   fst (process (ledger_collab [clip ''T'' ''c'', clip ''U'' [], clip ''V'' ''e''] accept_all
          (\<lambda>c. True)) live (store_with [clip ''T'' ''c''], [])) =
     Inr \<lparr>total_processed = 3, new_sent = 1, duplicates_skipped = 1, failed_to_send = 0\<rparr> \<and>
   fst (process (ledger_collab [clip ''T'' ''c'', clip ''U'' [], clip ''V'' ''e''] accept_all
          (\<lambda>c. True)) live
         (final_state (process (ledger_collab [clip ''T'' ''c'', clip ''U'' [], clip ''V'' ''e'']
            accept_all (\<lambda>c. True)) live (store_with [clip ''T'' ''c''], [])), [])) =
     Inr \<lparr>total_processed = 3, new_sent = 0, duplicates_skipped = 2, failed_to_send = 0\<rparr>"
proof -
  have h: "\<not> dry_run live" by (simp add: live_def)
  have r1: "fst (process (ledger_collab [clip ''T'' ''c'', clip ''U'' [], clip ''V'' ''e'']
          accept_all (\<lambda>c. True)) live (store_with [clip ''T'' ''c''], [])) =
     Inr \<lparr>total_processed = 3, new_sent = 1, duplicates_skipped = 1, failed_to_send = 0\<rparr>"
    by (simp add: run_defs env_defs call_defs invoke_pair Let_def)
  from second_run_sends_nothing[OF h, of "[clip ''T'' ''c'', clip ''U'' [], clip ''V'' ''e'']"
      accept_all "\<lambda>c. True" "store_with [clip ''T'' ''c'']"] h r1
  show ?thesis by (simp add: clip_def)
qed

section \<open>At most one insert for each DedupKey\<close>













end
